theory Spec2Isabelle
  imports Main "HOL-Library.Word"
begin

section \<open>ArcPool: the authorized financing ledger\<close>

text \<open>
  A shallow embedding of the Solidity contract \<open>ArcPool\<close> (pragma \<open>^0.8.20\<close>).

  \<^item> \<open>uint256\<close> values are natural numbers; Solidity 0.8 checks every \<open>+\<close>, \<open>-\<close> and
    \<open>*\<close> and reverts with \<open>Panic(0x11)\<close> when the result leaves \<open>0 .. 2^256 - 1\<close>. Each
    such check is written out as a branch returning \<open>Inl Panic\<close>.  Arguments and
    \<open>msg.value\<close> range over all natural numbers, those a call can carry included.
  \<^item> \<open>address\<close> is a 160-bit word, \<open>bytes32\<close> a 256-bit word, a Solidity \<open>mapping\<close> a
    total function (every key holds the zero value until written).
  \<^item> A function body is a function from the storage to \<open>error + storage\<close>; \<open>require\<close>
    failing, a panic and a revert of a library are \<open>Inl\<close>.  The EVM discards every write of
    a reverted call: \<open>transact\<close> returns the storage the call started from.
  \<^item> \<open>msg.value\<close> is an argument of the payable functions; a call that carries value to a
    function that is not payable is rejected by \<open>run\<close> before the function is entered.
  \<^item> \<open>nonReentrant\<close>: a guarded function takes the state of the guard it finds,
    \<open>NOT_ENTERED\<close> in a top-level call and \<open>ENTERED\<close> in a call made while a guarded
    function runs, and reverts on \<open>ENTERED\<close>.
  \<^item> A low-level \<open>to.call{value: v}("")\<close> hands control to the recipient.  The recipient
    may call back into the pool before it returns: \<open>send\<close> runs these calls, with the guard
    \<open>ENTERED\<close>, on the storage written so far.  When the recipient is the pool itself, the
    transfer runs the pool's own \<open>receive\<close>.  Which calls a foreign recipient makes and
    whether it returns success are decided outside the contract, as is the signer
    \<open>ECDSA.recover(_hashTypedDataV4(structHash), signature)\<close> finds; they are fields of the
    call environment.
  \<^item> Events change no storage and are left out.
\<close>

subsection \<open>Types\<close>

type_synonym address = "160 word"
type_synonym bytes32 = "256 word"
type_synonym signature = "8 word list"

definition MAX_UINT256 :: nat where
  "MAX_UINT256 = 2 ^ 256 - 1"

text \<open>
  Role identifiers.  \<open>DEFAULT_ADMIN_ROLE\<close> is \<open>0x00\<close>; \<open>AEGIS_ROLE\<close> and \<open>ADMIN_ROLE\<close> are the
  keccak256 hashes of their names, two further distinct constants; \<open>OTHER_ROLE\<close> stands for
  every other \<open>bytes32\<close> a caller of \<open>grantRole\<close> may pass.
\<close>

datatype role = DEFAULT_ADMIN_ROLE | ADMIN_ROLE | AEGIS_ROLE | OTHER_ROLE bytes32

text \<open>
  The reverts of the contract, named after their \<open>require\<close> strings, and those of the
  libraries and of the compiler.  \<open>InvalidSignature\<close> is both \<open>"Invalid signature"\<close> and the
  errors \<open>ECDSA.recover\<close> itself reverts with on a signature that recovers no signer;
  \<open>CallValueNotZero\<close> is the revert of a function that is not payable on a call with value.
\<close>

datatype error =
    Panic
  | CallValueNotZero
  | ReentrancyGuardReentrantCall
  | InvalidAegisWallet
  | AmountZero
  | InsufficientDeposit
  | InsufficientLiquidity
  | TransferFailed
  | InvoiceAlreadyFinanced
  | SignatureExpired
  | InvalidTerms
  | InvalidDueDate
  | InvalidSignature
  | InvoiceNotFinanced
  | AlreadyRepaid
  | InsufficientRepayment
  | ProtocolFeeTransferFailed
  | RefundFailed
  | InvalidWalletAddress
  | FeeRateTooHigh
  | InvalidReceiverAddress
  | AccessControlUnauthorizedAccount address role
  | AccessControlBadConfirmation

record financingRecord =
  invoiceId :: bytes32
  supplier :: address
  payoutAmount :: nat
  repaymentAmount :: nat
  dueDate :: nat
  timestamp :: nat
  repaid :: bool

text \<open>The message the Aegis server signs (the EIP-712 struct \<open>FinancingRequest\<close>).\<close>

record financingRequest =
  req_invoiceId :: bytes32
  req_supplier :: address
  req_payoutAmount :: nat
  req_repaymentAmount :: nat
  req_dueDate :: nat
  req_nonce :: nat
  req_deadline :: nat

text \<open>The external and public functions of the contract that change storage.\<close>

datatype operation =
    Deposit
  | Receive
  | Withdraw nat
  | WithdrawFinancing bytes32 nat nat nat nat nat signature
  | Repay bytes32
  | UpdateAegisWallet address
  | UpdateProtocolFeeRate nat
  | UpdateProtocolFeeReceiver address
  | GrantRole role address
  | RevokeRole role address
  | RenounceRole role address

text \<open>
  The call environment: \<open>msg.sender\<close>, \<open>block.timestamp\<close>, the pool's own address
  \<open>address(this)\<close>, the signer \<open>ECDSA.recover\<close> finds for a typed request and a signature
  (\<open>None\<close> when it reverts), and what a foreign recipient does with a value transfer:
  \<open>callee k to v\<close>, for the transfer of \<open>v\<close> to \<open>to\<close> at the \<open>k\<close>-th transfer site of the
  function called (\<open>repay\<close> has two: the protocol fee at 0, the refund at 1), is whether the
  recipient returns success, and the calls into the pool made while it runs, each with its
  sender and its value.
\<close>

record env =
  msg_sender :: address
  block_timestamp :: nat
  address_this :: address
  callee :: "nat \<Rightarrow> address \<Rightarrow> nat \<Rightarrow> bool \<times> (address \<times> nat \<times> operation) list"
  recover :: "financingRequest \<Rightarrow> signature \<Rightarrow> address option"

text \<open>The storage of the contract; \<open>hasRole\<close> is \<open>_roles[role].hasRole[account]\<close>.\<close>

record pool =
  aegisServerWallet :: address
  totalPoolSize :: nat
  availableLiquidity :: nat
  totalFinanced :: nat
  totalInterestEarned :: nat
  protocolFeeRate :: nat
  protocolFeeReceiver :: address
  usedInvoices :: "bytes32 \<Rightarrow> bool"
  lpDeposits :: "address \<Rightarrow> nat"
  financingRecords :: "bytes32 \<Rightarrow> financingRecord"
  hasRole :: "role \<Rightarrow> address \<Rightarrow> bool"

datatype outcome = Success | Reverted error

definition transact :: "(pool \<Rightarrow> error + pool) \<Rightarrow> pool \<Rightarrow> outcome \<times> pool" where
  "transact f s = (case f s of Inl e \<Rightarrow> (Reverted e, s) | Inr s' \<Rightarrow> (Success, s'))"

subsection \<open>ReentrancyGuard (OpenZeppelin)\<close>

text \<open>The value of \<open>_status\<close> a call finds, and \<open>modifier nonReentrant\<close>.\<close>

datatype guard = NOT_ENTERED | ENTERED

definition nonReentrant :: "guard \<Rightarrow> (error + pool) \<Rightarrow> error + pool" where
  "nonReentrant g body = (if g = ENTERED then Inl ReentrancyGuardReentrantCall else body)"

subsection \<open>AccessControl (OpenZeppelin), as the contract inherits it\<close>

text \<open>
  \<open>_setRoleAdmin\<close> is never called, so the admin role of every role is the stored default,
  \<open>DEFAULT_ADMIN_ROLE\<close>.
\<close>

definition getRoleAdmin :: "role \<Rightarrow> role" where
  "getRoleAdmin r = DEFAULT_ADMIN_ROLE"

definition grantRole_internal :: "role \<Rightarrow> address \<Rightarrow> pool \<Rightarrow> pool" where
  "grantRole_internal r a s =
     (if \<not> hasRole s r a then s\<lparr>hasRole := (hasRole s)(r := (hasRole s r)(a := True))\<rparr>
      else s)"

definition revokeRole_internal :: "role \<Rightarrow> address \<Rightarrow> pool \<Rightarrow> pool" where
  "revokeRole_internal r a s =
     (if hasRole s r a then s\<lparr>hasRole := (hasRole s)(r := (hasRole s r)(a := False))\<rparr>
      else s)"

text \<open>\<open>modifier onlyRole(role)\<close>: \<open>_checkRole(role, msg.sender)\<close>.\<close>

definition onlyRole :: "env \<Rightarrow> role \<Rightarrow> pool \<Rightarrow> error + pool" where
  "onlyRole e r s =
     (if \<not> hasRole s r (msg_sender e)
      then Inl (AccessControlUnauthorizedAccount (msg_sender e) r)
      else Inr s)"

text \<open>
  The public \<open>grantRole\<close> and \<open>revokeRole\<close> carry \<open>onlyRole(getRoleAdmin(role))\<close>, whoever
  calls them: an external caller, or the contract's own code in an internal call (where
  \<open>msg.sender\<close> is still the caller of the outer function).
\<close>

definition grantRole :: "env \<Rightarrow> role \<Rightarrow> address \<Rightarrow> pool \<Rightarrow> error + pool" where
  "grantRole e r a s =
     (case onlyRole e (getRoleAdmin r) s of
        Inl err \<Rightarrow> Inl err
      | Inr s1 \<Rightarrow> Inr (grantRole_internal r a s1))"

definition revokeRole :: "env \<Rightarrow> role \<Rightarrow> address \<Rightarrow> pool \<Rightarrow> error + pool" where
  "revokeRole e r a s =
     (case onlyRole e (getRoleAdmin r) s of
        Inl err \<Rightarrow> Inl err
      | Inr s1 \<Rightarrow> Inr (revokeRole_internal r a s1))"

definition renounceRole :: "env \<Rightarrow> role \<Rightarrow> address \<Rightarrow> pool \<Rightarrow> error + pool" where
  "renounceRole e r callerConfirmation s =
     (if callerConfirmation \<noteq> msg_sender e then Inl AccessControlBadConfirmation
      else Inr (revokeRole_internal r callerConfirmation s))"

subsection \<open>Constructor\<close>

definition emptyRecord :: financingRecord where
  "emptyRecord = \<lparr>invoiceId = 0, supplier = 0, payoutAmount = 0, repaymentAmount = 0,
     dueDate = 0, timestamp = 0, repaid = False\<rparr>"

definition zeroStorage :: pool where
  "zeroStorage = \<lparr>aegisServerWallet = 0, totalPoolSize = 0, availableLiquidity = 0,
     totalFinanced = 0, totalInterestEarned = 0, protocolFeeRate = 1000,
     protocolFeeReceiver = 0, usedInvoices = (\<lambda>_. False), lpDeposits = (\<lambda>_. 0),
     financingRecords = (\<lambda>_. emptyRecord), hasRole = (\<lambda>_ _. False)\<rparr>"

text \<open>\<open>constructor e v aegis\<close>: deployment by \<open>msg.sender\<close> with \<open>msg.value = v\<close>.\<close>

definition constructor :: "env \<Rightarrow> nat \<Rightarrow> address \<Rightarrow> error + pool" where
  "constructor e v aegis =
     (if aegis = 0 then Inl InvalidAegisWallet
      else
        let s1 = zeroStorage\<lparr>aegisServerWallet := aegis, protocolFeeReceiver := msg_sender e\<rparr>;
            s2 = grantRole_internal DEFAULT_ADMIN_ROLE (msg_sender e) s1;
            s3 = grantRole_internal ADMIN_ROLE (msg_sender e) s2;
            s4 = grantRole_internal AEGIS_ROLE aegis s3
        in if v > 0
           then Inr (s4\<lparr>totalPoolSize := v, availableLiquidity := v,
                        lpDeposits := (lpDeposits s4)(msg_sender e := v)\<rparr>)
           else Inr s4)"

subsection \<open>Deposits\<close>

definition processDeposit :: "address \<Rightarrow> nat \<Rightarrow> pool \<Rightarrow> error + pool" where
  "processDeposit depositor amount s =
     (if \<not> amount > 0 then Inl AmountZero
      else if \<not> lpDeposits s depositor + amount \<le> MAX_UINT256 then Inl Panic
      else if \<not> totalPoolSize s + amount \<le> MAX_UINT256 then Inl Panic
      else if \<not> availableLiquidity s + amount \<le> MAX_UINT256 then Inl Panic
      else Inr (s\<lparr>lpDeposits := (lpDeposits s)(depositor := lpDeposits s depositor + amount),
                  totalPoolSize := totalPoolSize s + amount,
                  availableLiquidity := availableLiquidity s + amount\<rparr>))"

text \<open>\<open>function deposit() external payable nonReentrant\<close>, with \<open>msg.value = v\<close>.\<close>

definition deposit :: "guard \<Rightarrow> env \<Rightarrow> nat \<Rightarrow> pool \<Rightarrow> error + pool" where
  "deposit g e v s = nonReentrant g (processDeposit (msg_sender e) v s)"

text \<open>\<open>receive() external payable\<close>, with \<open>msg.value = v\<close>: no modifier.\<close>

definition receive :: "env \<Rightarrow> nat \<Rightarrow> pool \<Rightarrow> error + pool" where
  "receive e v s = processDeposit (msg_sender e) v s"

subsection \<open>Admin functions\<close>

definition updateAegisWallet :: "env \<Rightarrow> address \<Rightarrow> pool \<Rightarrow> error + pool" where
  "updateAegisWallet e newWallet s =
     (case onlyRole e ADMIN_ROLE s of
        Inl err \<Rightarrow> Inl err
      | Inr _ \<Rightarrow>
          if newWallet = 0 then Inl InvalidWalletAddress
          else
            let oldWallet = aegisServerWallet s;
                s1 = s\<lparr>aegisServerWallet := newWallet\<rparr>
            in case revokeRole e AEGIS_ROLE oldWallet s1 of
                 Inl err \<Rightarrow> Inl err
               | Inr s2 \<Rightarrow> grantRole e AEGIS_ROLE newWallet s2)"

definition updateProtocolFeeRate :: "env \<Rightarrow> nat \<Rightarrow> pool \<Rightarrow> error + pool" where
  "updateProtocolFeeRate e newRate s =
     (case onlyRole e ADMIN_ROLE s of
        Inl err \<Rightarrow> Inl err
      | Inr _ \<Rightarrow>
          if \<not> newRate \<le> 5000 then Inl FeeRateTooHigh
          else Inr (s\<lparr>protocolFeeRate := newRate\<rparr>))"

definition updateProtocolFeeReceiver :: "env \<Rightarrow> address \<Rightarrow> pool \<Rightarrow> error + pool" where
  "updateProtocolFeeReceiver e newReceiver s =
     (case onlyRole e ADMIN_ROLE s of
        Inl err \<Rightarrow> Inl err
      | Inr _ \<Rightarrow>
          if newReceiver = 0 then Inl InvalidReceiverAddress
          else Inr (s\<lparr>protocolFeeReceiver := newReceiver\<rparr>))"

subsection \<open>Value transfers and the calls made during them\<close>

text \<open>The functions declared \<open>payable\<close>.\<close>

definition payable :: "operation \<Rightarrow> bool" where
  "payable op = (case op of Deposit \<Rightarrow> True | Receive \<Rightarrow> True | Repay _ \<Rightarrow> True | _ \<Rightarrow> False)"

text \<open>
  A call with value \<open>v\<close> that arrives while a guarded function runs (the guard is
  \<open>ENTERED\<close>): \<open>deposit\<close>, \<open>withdraw\<close>, \<open>withdrawFinancing\<close> and \<open>repay\<close> revert at
  \<open>nonReentrant\<close>; \<open>receive\<close>, the admin functions and the role functions carry no guard.
\<close>

definition reenter :: "env \<Rightarrow> nat \<Rightarrow> operation \<Rightarrow> pool \<Rightarrow> error + pool" where
  "reenter e v op s =
     (if v \<noteq> 0 \<and> \<not> payable op then Inl CallValueNotZero
      else case op of
        Deposit \<Rightarrow> Inl ReentrancyGuardReentrantCall
      | Receive \<Rightarrow> receive e v s
      | Withdraw amount \<Rightarrow> Inl ReentrancyGuardReentrantCall
      | WithdrawFinancing iid payout repayment due nonce deadline sg \<Rightarrow>
          Inl ReentrancyGuardReentrantCall
      | Repay iid \<Rightarrow> Inl ReentrancyGuardReentrantCall
      | UpdateAegisWallet w \<Rightarrow> updateAegisWallet e w s
      | UpdateProtocolFeeRate r \<Rightarrow> updateProtocolFeeRate e r s
      | UpdateProtocolFeeReceiver a \<Rightarrow> updateProtocolFeeReceiver e a s
      | GrantRole r a \<Rightarrow> grantRole e r a s
      | RevokeRole r a \<Rightarrow> revokeRole e r a s
      | RenounceRole r a \<Rightarrow> renounceRole e r a s)"

text \<open>
  The calls a recipient makes while it runs, in order; one that reverts changes nothing.
\<close>

fun callbacks :: "env \<Rightarrow> (address \<times> nat \<times> operation) list \<Rightarrow> pool \<Rightarrow> pool" where
  "callbacks e [] s = s"
| "callbacks e ((a, v, op) # cs) s =
     callbacks e cs (snd (transact (reenter (e\<lparr>msg_sender := a\<rparr>) v op) s))"

text \<open>
  \<open>to.call{value: v}("")\<close> at transfer site \<open>k\<close>: the success flag and the storage when the
  call returns.  A recipient that reverts takes its own calls back with it.
\<close>

definition send :: "env \<Rightarrow> nat \<Rightarrow> address \<Rightarrow> nat \<Rightarrow> pool \<Rightarrow> bool \<times> pool" where
  "send e k to v s =
     (if to = address_this e
      then (case receive (e\<lparr>msg_sender := address_this e\<rparr>) v s of
              Inl _ \<Rightarrow> (False, s)
            | Inr s' \<Rightarrow> (True, s'))
      else if fst (callee e k to v) then (True, callbacks e (snd (callee e k to v)) s)
      else (False, s))"

subsection \<open>Withdrawal\<close>

definition withdrawWrites :: "env \<Rightarrow> nat \<Rightarrow> pool \<Rightarrow> pool" where
  "withdrawWrites e amount s =
     s\<lparr>lpDeposits := (lpDeposits s)(msg_sender e := lpDeposits s (msg_sender e) - amount),
       totalPoolSize := totalPoolSize s - amount,
       availableLiquidity := availableLiquidity s - amount\<rparr>"

definition withdraw :: "guard \<Rightarrow> env \<Rightarrow> nat \<Rightarrow> pool \<Rightarrow> error + pool" where
  "withdraw g e amount s =
     nonReentrant g
       (if \<not> amount > 0 then Inl AmountZero
        else if \<not> amount \<le> lpDeposits s (msg_sender e) then Inl InsufficientDeposit
        else if \<not> amount \<le> availableLiquidity s then Inl InsufficientLiquidity
        else if \<not> amount \<le> totalPoolSize s then Inl Panic
        else
          let sent = send e 0 (msg_sender e) amount (withdrawWrites e amount s)
          in if \<not> fst sent then Inl TransferFailed else Inr (snd sent))"

subsection \<open>Financing\<close>

definition financingWrites :: "env \<Rightarrow> bytes32 \<Rightarrow> nat \<Rightarrow> nat \<Rightarrow> nat \<Rightarrow> pool \<Rightarrow> pool" where
  "financingWrites e iid payout repayment due s =
     s\<lparr>usedInvoices := (usedInvoices s)(iid := True),
       availableLiquidity := availableLiquidity s - payout,
       totalFinanced := totalFinanced s + payout,
       financingRecords := (financingRecords s)(iid :=
         \<lparr>invoiceId = iid, supplier = msg_sender e, payoutAmount = payout,
          repaymentAmount = repayment, dueDate = due,
          timestamp = block_timestamp e, repaid = False\<rparr>)\<rparr>"

definition withdrawFinancing ::
  "guard \<Rightarrow> env \<Rightarrow> bytes32 \<Rightarrow> nat \<Rightarrow> nat \<Rightarrow> nat \<Rightarrow> nat \<Rightarrow> nat \<Rightarrow> signature \<Rightarrow> pool
     \<Rightarrow> error + pool" where
  "withdrawFinancing g e iid payout repayment due nonce deadline sg s =
     nonReentrant g
       (if usedInvoices s iid then Inl InvoiceAlreadyFinanced
        else if \<not> block_timestamp e \<le> deadline then Inl SignatureExpired
        else if \<not> payout \<le> availableLiquidity s then Inl InsufficientLiquidity
        else if \<not> repayment > payout then Inl InvalidTerms
        else if \<not> due > block_timestamp e then Inl InvalidDueDate
        else if recover e \<lparr>req_invoiceId = iid, req_supplier = msg_sender e,
                   req_payoutAmount = payout, req_repaymentAmount = repayment,
                   req_dueDate = due, req_nonce = nonce, req_deadline = deadline\<rparr> sg
                \<noteq> Some (aegisServerWallet s)
             then Inl InvalidSignature
        else if \<not> totalFinanced s + payout \<le> MAX_UINT256 then Inl Panic
        else
          let sent = send e 0 (msg_sender e) payout (financingWrites e iid payout repayment due s)
          in if \<not> fst sent then Inl TransferFailed else Inr (snd sent))"

subsection \<open>Repayment\<close>

text \<open>
  The late-fee block of \<open>repay\<close>: from the record and \<open>block.timestamp\<close> to
  \<open>(requiredAmount, lateFee)\<close>; \<open>1 days\<close> is 86400.
\<close>

definition lateFeeBlock :: "financingRecord \<Rightarrow> nat \<Rightarrow> error + (nat \<times> nat)" where
  "lateFeeBlock record now =
     (if now > dueDate record then
        let daysLate = (now - dueDate record) div 86400 in
        if \<not> repaymentAmount record * daysLate \<le> MAX_UINT256 then Inl Panic
        else if \<not> repaymentAmount record * daysLate * 100 \<le> MAX_UINT256 then Inl Panic
        else if \<not> repaymentAmount record * 3000 \<le> MAX_UINT256 then Inl Panic
        else
          let lateFee0 = (repaymentAmount record * daysLate * 100) div 10000;
              maxLateFee = (repaymentAmount record * 3000) div 10000;
              lateFee = (if lateFee0 > maxLateFee then maxLateFee else lateFee0)
          in if \<not> repaymentAmount record + lateFee \<le> MAX_UINT256 then Inl Panic
             else Inr (repaymentAmount record + lateFee, lateFee)
      else Inr (repaymentAmount record, 0))"

text \<open>The storage writes of \<open>repay\<close>, all made before the transfers.\<close>

definition repayWrites :: "bytes32 \<Rightarrow> nat \<Rightarrow> nat \<Rightarrow> pool \<Rightarrow> pool" where
  "repayWrites iid lpInterest totalInterest s =
     s\<lparr>financingRecords := (financingRecords s)(iid := (financingRecords s iid)\<lparr>repaid := True\<rparr>),
       availableLiquidity :=
         availableLiquidity s + (payoutAmount (financingRecords s iid) + lpInterest),
       totalPoolSize := totalPoolSize s + lpInterest,
       totalInterestEarned := totalInterestEarned s + totalInterest\<rparr>"

text \<open>
  The two transfers that end \<open>repay\<close>: the protocol fee, when above 0, to the fee receiver
  in storage, then the excess of \<open>msg.value\<close> over the required amount back to the caller.
\<close>

definition repayTransfers :: "env \<Rightarrow> nat \<Rightarrow> nat \<Rightarrow> nat \<Rightarrow> pool \<Rightarrow> error + pool" where
  "repayTransfers e v requiredAmount protocolFee s1 =
     (let paid = (if protocolFee > 0 then send e 0 (protocolFeeReceiver s1) protocolFee s1
                  else (True, s1))
      in if \<not> fst paid then Inl ProtocolFeeTransferFailed
         else
           let refunded = (if v > requiredAmount
                           then send e 1 (msg_sender e) (v - requiredAmount) (snd paid)
                           else (True, snd paid))
           in if \<not> fst refunded then Inl RefundFailed else Inr (snd refunded))"

text \<open>\<open>function repay(bytes32 invoiceId) external payable nonReentrant\<close>, with \<open>msg.value = v\<close>.\<close>

definition repay :: "guard \<Rightarrow> env \<Rightarrow> nat \<Rightarrow> bytes32 \<Rightarrow> pool \<Rightarrow> error + pool" where
  "repay g e v iid s =
     nonReentrant g
       (let record = financingRecords s iid in
        if \<not> usedInvoices s iid then Inl InvoiceNotFinanced
        else if repaid record then Inl AlreadyRepaid
        else
          case lateFeeBlock record (block_timestamp e) of
            Inl err \<Rightarrow> Inl err
          | Inr (requiredAmount, lateFee) \<Rightarrow>
              if \<not> v \<ge> requiredAmount then Inl InsufficientRepayment
              else if \<not> payoutAmount record \<le> repaymentAmount record then Inl Panic
              else
                let baseInterest = repaymentAmount record - payoutAmount record in
                if \<not> baseInterest + lateFee \<le> MAX_UINT256 then Inl Panic
                else
                  let totalInterest = baseInterest + lateFee in
                  if \<not> totalInterest * protocolFeeRate s \<le> MAX_UINT256 then Inl Panic
                  else
                    let protocolFee = (totalInterest * protocolFeeRate s) div 10000 in
                    if \<not> protocolFee \<le> totalInterest then Inl Panic
                    else
                      let lpInterest = totalInterest - protocolFee in
                      if \<not> payoutAmount record + lpInterest \<le> MAX_UINT256 then Inl Panic
                      else if \<not> availableLiquidity s + (payoutAmount record + lpInterest)
                                  \<le> MAX_UINT256 then Inl Panic
                      else if \<not> totalPoolSize s + lpInterest \<le> MAX_UINT256 then Inl Panic
                      else if \<not> totalInterestEarned s + totalInterest \<le> MAX_UINT256
                           then Inl Panic
                      else repayTransfers e v requiredAmount protocolFee
                             (repayWrites iid lpInterest totalInterest s))"

subsection \<open>The entry points as transactions\<close>

text \<open>
  \<open>run g e v op\<close>: the call of \<open>op\<close> with \<open>msg.value = v\<close> that finds the guard in state \<open>g\<close>.
  A function that is not payable reverts on a call that carries value.
\<close>

definition run :: "guard \<Rightarrow> env \<Rightarrow> nat \<Rightarrow> operation \<Rightarrow> pool \<Rightarrow> error + pool" where
  "run g e v op s =
     (if v \<noteq> 0 \<and> \<not> payable op then Inl CallValueNotZero
      else case op of
        Deposit \<Rightarrow> deposit g e v s
      | Receive \<Rightarrow> receive e v s
      | Withdraw amount \<Rightarrow> withdraw g e amount s
      | WithdrawFinancing iid payout repayment due nonce deadline sg \<Rightarrow>
          withdrawFinancing g e iid payout repayment due nonce deadline sg s
      | Repay iid \<Rightarrow> repay g e v iid s
      | UpdateAegisWallet w \<Rightarrow> updateAegisWallet e w s
      | UpdateProtocolFeeRate r \<Rightarrow> updateProtocolFeeRate e r s
      | UpdateProtocolFeeReceiver a \<Rightarrow> updateProtocolFeeReceiver e a s
      | GrantRole r a \<Rightarrow> grantRole e r a s
      | RevokeRole r a \<Rightarrow> revokeRole e r a s
      | RenounceRole r a \<Rightarrow> renounceRole e r a s)"

text \<open>A top-level call: the guard is \<open>NOT_ENTERED\<close>.\<close>

definition exec :: "env \<Rightarrow> nat \<Rightarrow> operation \<Rightarrow> pool \<Rightarrow> outcome \<times> pool" where
  "exec e v op s = transact (run NOT_ENTERED e v op) s"

text \<open>
  The states of a deployed contract: what the constructor leaves, and what any transaction,
  committed or reverted, makes of such a state.
\<close>

inductive reachable :: "pool \<Rightarrow> bool" where
  init: "constructor e v aegis = Inr s \<Longrightarrow> reachable s"
| step: "reachable s \<Longrightarrow> reachable (snd (exec e v op s))"

text \<open>\<open>trace s s'\<close>: some sequence of transactions leads from \<open>s\<close> to \<open>s'\<close>.\<close>

inductive trace :: "pool \<Rightarrow> pool \<Rightarrow> bool" where
  here: "trace s s"
| later: "trace s s' \<Longrightarrow> trace s (snd (exec e v op s'))"

text \<open>
  What invoice \<open>i\<close> still owes the pool: its payout while it is financed and not repaid.
  \<open>outstanding\<close> adds this up over all invoice identifiers.
\<close>

definition owed :: "pool \<Rightarrow> bytes32 \<Rightarrow> nat" where
  "owed s i = (if usedInvoices s i \<and> \<not> repaid (financingRecords s i)
               then payoutAmount (financingRecords s i) else 0)"

definition outstanding :: "pool \<Rightarrow> nat" where
  "outstanding s = sum (owed s) UNIV"

definition ledger_inv :: "pool \<Rightarrow> bool" where
  "ledger_inv s = (totalPoolSize s = availableLiquidity s + outstanding s)"

text \<open>
  What the calls that pass an entered guard leave alone: the used-invoice set, the records
  and the two running totals of financing; and what they change of the pool's size they
  change of its liquidity.
\<close>

definition untouched :: "pool \<Rightarrow> pool \<Rightarrow> bool" where
  "untouched s s' =
     (usedInvoices s' = usedInvoices s \<and> financingRecords s' = financingRecords s
      \<and> totalFinanced s' = totalFinanced s \<and> totalInterestEarned s' = totalInterestEarned s
      \<and> totalPoolSize s \<le> totalPoolSize s'
      \<and> totalPoolSize s' + availableLiquidity s = totalPoolSize s + availableLiquidity s')"

subsection \<open>The late fee of the specification\<close>

text \<open>
  The late fee in the words of the specification (FeeEngine, \<open>lateFee\<close>): nothing up to the
  due date; afterwards 1% of the repayment amount per full day late, capped at 30% of it,
  in integer arithmetic.
\<close>

definition spec_lateFee :: "nat \<Rightarrow> nat \<Rightarrow> nat \<Rightarrow> nat" where
  "spec_lateFee amount due now =
     (if now \<le> due then 0
      else min (amount * ((now - due) div 86400) div 100) (amount * 30 div 100))"

subsection \<open>A concrete run\<close>

text \<open>
  The scenario of the specification: account 1 deploys the pool (address 100) with
  1,000,000 of initial liquidity and Aegis wallet 2 at time 1000; supplier 3 draws 98,000
  against invoice 7, to be repaid with 100,000 ninety days later (time 7,777,000); account
  4 repays.  In \<open>world\<close> every foreign recipient accepts a transfer and calls nothing.
\<close>

definition world :: "address \<Rightarrow> nat \<Rightarrow> env" where
  "world who now = \<lparr>msg_sender = who, block_timestamp = now, address_this = 100,
     callee = (\<lambda>_ _ _. (True, [])), recover = (\<lambda>_ _. Some 2)\<rparr>"

definition adminOnly :: "address \<Rightarrow> role \<Rightarrow> address \<Rightarrow> bool" where
  "adminOnly a r x = (if r = AEGIS_ROLE then x = a
     else if r = ADMIN_ROLE \<or> r = DEFAULT_ADMIN_ROLE then x = 1 else False)"

definition genesis :: pool where
  "genesis = \<lparr>aegisServerWallet = 2, totalPoolSize = 1000000, availableLiquidity = 1000000,
     totalFinanced = 0, totalInterestEarned = 0, protocolFeeRate = 1000,
     protocolFeeReceiver = 1, usedInvoices = (\<lambda>_. False),
     lpDeposits = (\<lambda>a. if a = 1 then 1000000 else 0),
     financingRecords = (\<lambda>_. emptyRecord), hasRole = adminOnly 2\<rparr>"

definition invoice7 :: financingRecord where
  "invoice7 = \<lparr>invoiceId = 7, supplier = 3, payoutAmount = 98000, repaymentAmount = 100000,
     dueDate = 7777000, timestamp = 1000, repaid = False\<rparr>"

definition financed :: pool where
  "financed = genesis\<lparr>availableLiquidity := 902000, totalFinanced := 98000,
     usedInvoices := (\<lambda>i. i = 7),
     financingRecords := (\<lambda>i. if i = 7 then invoice7 else emptyRecord)\<rparr>"

definition finance7 :: operation where
  "finance7 = WithdrawFinancing 7 98000 100000 7777000 1 2000 []"

definition settled :: pool where
  "settled = financed\<lparr>availableLiquidity := 1001800, totalPoolSize := 1001800,
     totalInterestEarned := 2000,
     financingRecords := (\<lambda>i. if i = 7 then invoice7\<lparr>repaid := True\<rparr> else emptyRecord)\<rparr>"

definition settledLate :: pool where
  "settledLate = financed\<lparr>availableLiquidity := 1010800, totalPoolSize := 1010800,
     totalInterestEarned := 12000,
     financingRecords := (\<lambda>i. if i = 7 then invoice7\<lparr>repaid := True\<rparr> else emptyRecord)\<rparr>"

text \<open>
  The pool after the deployer (account 1) has granted \<open>ADMIN_ROLE\<close> to account 5 with
  \<open>grantRole\<close>: account 5 is an admin, and only account 1 holds \<open>DEFAULT_ADMIN_ROLE\<close>.
\<close>

definition delegated :: pool where
  "delegated = genesis\<lparr>hasRole := (adminOnly 2)(ADMIN_ROLE := (adminOnly 2 ADMIN_ROLE)(5 := True))\<rparr>"



text \<open>
  A second financing on the financed pool: supplier 3 draws 1,000 against invoice 8 under a
  signed repayment amount of \<open>2 ^ 255\<close>, due at the same time 7,777,000.
\<close>

definition invoice8 :: financingRecord where
  "invoice8 = \<lparr>invoiceId = 8, supplier = 3, payoutAmount = 1000, repaymentAmount = 2 ^ 255,
     dueDate = 7777000, timestamp = 1100, repaid = False\<rparr>"

definition finance8 :: operation where
  "finance8 = WithdrawFinancing 8 1000 (2 ^ 255) 7777000 2 2000 []"

definition oversized :: pool where
  "oversized = financed\<lparr>availableLiquidity := 901000, totalFinanced := 99000,
     usedInvoices := (\<lambda>i. i = 7 \<or> i = 8),
     financingRecords := (\<lambda>i. if i = 8 then invoice8 else if i = 7 then invoice7
                                else emptyRecord)\<rparr>"

text \<open>
  Account 9 deposits 500 into the financed pool and withdraws them.  In \<open>payBack\<close> account 9
  is a contract that, on receiving a transfer, sends 200 back to the pool in a plain
  transfer.
\<close>

definition deposited :: pool where
  "deposited = financed\<lparr>lpDeposits := (lpDeposits financed)(9 := 500),
     totalPoolSize := 1000500, availableLiquidity := 902500\<rparr>"

definition payBack :: env where
  "payBack = (world 9 1001)\<lparr>callee := (\<lambda>_ _ _. (True, [(9, 200, Receive)]))\<rparr>"

definition paidBack :: pool where
  "paidBack = financed\<lparr>lpDeposits := (lpDeposits financed)(9 := 200),
     totalPoolSize := 1000200, availableLiquidity := 902200\<rparr>"

section \<open>Properties\<close>

subsection \<open>The ledger invariant: frame lemmas\<close>

lemma sum_point_update:
  fixes g h :: "bytes32 \<Rightarrow> nat"
  assumes "\<And>j. j \<noteq> i \<Longrightarrow> h j = g j"
  shows "sum h UNIV + g i = sum g UNIV + h i"
proof -
  have rest: "sum h (UNIV - {i}) = sum g (UNIV - {i})"
    by (rule sum.cong) (simp_all add: assms)
  have "sum h UNIV = h i + sum h (UNIV - {i})"
    by (rule sum.remove) simp_all
  moreover have "sum g UNIV = g i + sum g (UNIV - {i})"
    by (rule sum.remove) simp_all
  ultimately show ?thesis using rest by simp
qed

lemma outstanding_frame:
  "usedInvoices s' = usedInvoices s \<Longrightarrow> financingRecords s' = financingRecords s
   \<Longrightarrow> outstanding s' = outstanding s"
proof -
  assume a: "usedInvoices s' = usedInvoices s" "financingRecords s' = financingRecords s"
  have "owed s' = owed s"
    by (rule ext) (simp add: owed_def a)
  then show ?thesis by (simp add: outstanding_def)
qed

lemma outstanding_finance:
  assumes "\<not> usedInvoices s i" and "\<not> repaid r"
    and "usedInvoices s' = (usedInvoices s)(i := True)"
    and "financingRecords s' = (financingRecords s)(i := r)"
  shows "outstanding s' = outstanding s + payoutAmount r"
  using sum_point_update [of i "owed s'" "owed s"] assms
  by (simp add: outstanding_def owed_def)

lemma outstanding_repay:
  assumes "usedInvoices s i" and "\<not> repaid (financingRecords s i)"
    and "usedInvoices s' = usedInvoices s"
    and "financingRecords s' = (financingRecords s)(i := (financingRecords s i)\<lparr>repaid := True\<rparr>)"
  shows "outstanding s' + payoutAmount (financingRecords s i) = outstanding s"
  using sum_point_update [of i "owed s'" "owed s"] assms
  by (simp add: outstanding_def owed_def)

lemma untouched_refl: "untouched s s"
  by (simp add: untouched_def)

lemma untouched_trans: "untouched s t \<Longrightarrow> untouched t u \<Longrightarrow> untouched s u"
  by (auto simp: untouched_def)

lemma untouched_inv: "untouched s s' \<Longrightarrow> ledger_inv s \<Longrightarrow> ledger_inv s'"
  using outstanding_frame [of s' s] by (auto simp: untouched_def ledger_inv_def)

lemma processDeposit_untouched:
  "case processDeposit a x s of Inl _ \<Rightarrow> True | Inr s' \<Rightarrow> untouched s s'"
  by (simp add: processDeposit_def untouched_def)

lemma roles_untouched:
  "untouched s (grantRole_internal r a s)" "untouched s (revokeRole_internal r a s)"
  by (simp_all add: grantRole_internal_def revokeRole_internal_def untouched_def)

lemma admin_untouched:
  "case updateAegisWallet e w s of Inl _ \<Rightarrow> True | Inr s' \<Rightarrow> untouched s s'"
  "case updateProtocolFeeRate e n s of Inl _ \<Rightarrow> True | Inr s' \<Rightarrow> untouched s s'"
  "case updateProtocolFeeReceiver e a s of Inl _ \<Rightarrow> True | Inr s' \<Rightarrow> untouched s s'"
  "case grantRole e r a s of Inl _ \<Rightarrow> True | Inr s' \<Rightarrow> untouched s s'"
  "case revokeRole e r a s of Inl _ \<Rightarrow> True | Inr s' \<Rightarrow> untouched s s'"
  "case renounceRole e r a s of Inl _ \<Rightarrow> True | Inr s' \<Rightarrow> untouched s s'"
  by (simp_all add: updateAegisWallet_def updateProtocolFeeRate_def
      updateProtocolFeeReceiver_def grantRole_def revokeRole_def renounceRole_def
      onlyRole_def Let_def grantRole_internal_def revokeRole_internal_def untouched_def)

subsection \<open>Calls made during a transfer\<close>

lemma reenter_untouched:
  "case reenter e v op s of Inl _ \<Rightarrow> True | Inr s' \<Rightarrow> untouched s s'"
proof (cases op)
  case Receive
  then show ?thesis
    using processDeposit_untouched [where a = "msg_sender e" and x = v and s = s]
    by (simp add: reenter_def receive_def payable_def)
next
  case (UpdateAegisWallet w)
  then show ?thesis
    using admin_untouched(1) [where e = e and w = w and s = s]
    by (simp add: reenter_def payable_def)
next
  case (UpdateProtocolFeeRate n)
  then show ?thesis
    using admin_untouched(2) [where e = e and n = n and s = s]
    by (simp add: reenter_def payable_def)
next
  case (UpdateProtocolFeeReceiver a)
  then show ?thesis
    using admin_untouched(3) [where e = e and a = a and s = s]
    by (simp add: reenter_def payable_def)
next
  case (GrantRole r a)
  then show ?thesis
    using admin_untouched(4) [where e = e and r = r and a = a and s = s]
    by (simp add: reenter_def payable_def)
next
  case (RevokeRole r a)
  then show ?thesis
    using admin_untouched(5) [where e = e and r = r and a = a and s = s]
    by (simp add: reenter_def payable_def)
next
  case (RenounceRole r a)
  then show ?thesis
    using admin_untouched(6) [where e = e and r = r and a = a and s = s]
    by (simp add: reenter_def payable_def)
qed (simp_all add: reenter_def payable_def)

lemma callbacks_untouched: "untouched s (callbacks e cs s)"
proof (induction cs arbitrary: s)
  case Nil
  then show ?case by (simp add: untouched_refl)
next
  case (Cons c cs)
  obtain a v op where c: "c = (a, v, op)" by (cases c)
  let ?t = "snd (transact (reenter (e\<lparr>msg_sender := a\<rparr>) v op) s)"
  have "untouched s ?t"
    using reenter_untouched [where e = "e\<lparr>msg_sender := a\<rparr>" and v = v and op = op and s = s]
    by (simp add: transact_def untouched_refl split: sum.splits)
  from untouched_trans [OF this Cons.IH [of ?t]] show ?case
    by (simp add: c)
qed

lemma send_untouched: "untouched s (snd (send e k to v s))"
  using processDeposit_untouched [where a = "address_this e" and x = v and s = s]
    callbacks_untouched [where s = s and e = e and cs = "snd (callee e k to v)"]
  by (simp add: send_def receive_def untouched_refl split: sum.splits)

subsection \<open>The guarded functions\<close>

lemma guard_open: "(g \<noteq> ENTERED) = (g = NOT_ENTERED)"
  by (cases g) simp_all

lemma outstanding_update:
  "outstanding (s\<lparr>aegisServerWallet := a1\<rparr>) = outstanding s"
  "outstanding (s\<lparr>totalPoolSize := n1\<rparr>) = outstanding s"
  "outstanding (s\<lparr>availableLiquidity := n2\<rparr>) = outstanding s"
  "outstanding (s\<lparr>totalFinanced := n3\<rparr>) = outstanding s"
  "outstanding (s\<lparr>totalInterestEarned := n4\<rparr>) = outstanding s"
  "outstanding (s\<lparr>protocolFeeRate := n5\<rparr>) = outstanding s"
  "outstanding (s\<lparr>protocolFeeReceiver := a2\<rparr>) = outstanding s"
  "outstanding (s\<lparr>lpDeposits := f1\<rparr>) = outstanding s"
  "outstanding (s\<lparr>hasRole := f2\<rparr>) = outstanding s"
  by (rule outstanding_frame; simp)+

lemma withdraw_cases:
  "case withdraw g e x s of Inl _ \<Rightarrow> True | Inr s' \<Rightarrow>
     g = NOT_ENTERED \<and> 0 < x \<and> x \<le> lpDeposits s (msg_sender e)
     \<and> x \<le> availableLiquidity s \<and> x \<le> totalPoolSize s
     \<and> fst (send e 0 (msg_sender e) x (withdrawWrites e x s))
     \<and> s' = snd (send e 0 (msg_sender e) x (withdrawWrites e x s))"
  by (simp add: withdraw_def nonReentrant_def Let_def guard_open)

lemma withdrawFinancing_cases:
  "case withdrawFinancing g e i p r d n dl sg s of Inl _ \<Rightarrow> True | Inr s' \<Rightarrow>
     g = NOT_ENTERED \<and> \<not> usedInvoices s i \<and> p \<le> availableLiquidity s
     \<and> fst (send e 0 (msg_sender e) p (financingWrites e i p r d s))
     \<and> s' = snd (send e 0 (msg_sender e) p (financingWrites e i p r d s))"
  by (simp add: withdrawFinancing_def nonReentrant_def Let_def guard_open)

lemma repayTransfers_untouched:
  "case repayTransfers e v req fee s1 of Inl _ \<Rightarrow> True | Inr s' \<Rightarrow> untouched s1 s'"
proof -
  let ?s2 = "snd (send e 0 (protocolFeeReceiver s1) fee s1)"
  have a: "untouched s1 ?s2" by (rule send_untouched)
  have b: "untouched t (snd (send e 1 (msg_sender e) (v - req) t))" for t
    by (rule send_untouched)
  from a b [of ?s2] b [of s1] untouched_trans [OF a b [of ?s2]] show ?thesis
    by (simp add: repayTransfers_def Let_def untouched_refl)
qed

lemma repay_outcome_raw:
  "lateFeeBlock (financingRecords s iid) (block_timestamp e) = Inr (req, fee) \<Longrightarrow>
   case repay g e v iid s of Inl _ \<Rightarrow> True | Inr s' \<Rightarrow>
     (let r = financingRecords s iid;
          totalInterest = (repaymentAmount r - payoutAmount r) + fee;
          protocolFee = totalInterest * protocolFeeRate s div 10000;
          lpInterest = totalInterest - protocolFee
      in g = NOT_ENTERED \<and> usedInvoices s iid \<and> \<not> repaid r
         \<and> payoutAmount r \<le> repaymentAmount r \<and> protocolFee \<le> totalInterest
         \<and> req \<le> v
         \<and> repayTransfers e v req protocolFee (repayWrites iid lpInterest totalInterest s)
             = Inr s')"
  by (simp add: repay_def nonReentrant_def Let_def guard_open split: sum.split)

lemma repay_Inr:
  assumes "repay g e v iid s = Inr s'"
  obtains req fee where "lateFeeBlock (financingRecords s iid) (block_timestamp e) = Inr (req, fee)"
proof (cases "lateFeeBlock (financingRecords s iid) (block_timestamp e)")
  case (Inl err)
  with assms have False
    by (simp add: repay_def nonReentrant_def Let_def split: if_splits)
  then show ?thesis ..
next
  case (Inr p)
  with that show ?thesis by (cases p) auto
qed

text \<open>A committed \<open>repay\<close>: its writes, then the calls made during its transfers.\<close>

lemma repay_committed:
  assumes "repay g e v iid s = Inr s'"
  obtains lpInterest totalInterest where
    "usedInvoices s iid" "\<not> repaid (financingRecords s iid)"
    "untouched (repayWrites iid lpInterest totalInterest s) s'"
proof -
  from assms obtain req fee
    where blk: "lateFeeBlock (financingRecords s iid) (block_timestamp e) = Inr (req, fee)"
    by (rule repay_Inr)
  let ?r = "financingRecords s iid"
  let ?ti = "(repaymentAmount ?r - payoutAmount ?r) + fee"
  let ?pf = "?ti * protocolFeeRate s div 10000"
  have "usedInvoices s iid \<and> \<not> repaid ?r
    \<and> repayTransfers e v req ?pf (repayWrites iid (?ti - ?pf) ?ti s) = Inr s'"
    using repay_outcome_raw [OF blk, where g = g and v = v]
    by (simp only: assms sum.case Let_def) blast
  then have u: "usedInvoices s iid" and n: "\<not> repaid ?r"
    and t: "repayTransfers e v req ?pf (repayWrites iid (?ti - ?pf) ?ti s) = Inr s'"
    by blast+
  from repayTransfers_untouched [where e = e and v = v and req = req and fee = ?pf
      and ?s1.0 = "repayWrites iid (?ti - ?pf) ?ti s"] t
  have "untouched (repayWrites iid (?ti - ?pf) ?ti s) s'" by simp
  with u n that show ?thesis by blast
qed

lemma inv_processDeposit:
  "ledger_inv s \<Longrightarrow> processDeposit a n s = Inr s' \<Longrightarrow> ledger_inv s'"
  using processDeposit_untouched [where a = a and x = n and s = s]
  by (auto intro: untouched_inv)

lemma inv_withdraw:
  assumes "ledger_inv s" and "withdraw g e x s = Inr s'"
  shows "ledger_inv s'"
proof -
  from withdraw_cases [where g = g and e = e and x = x and s = s] assms(2)
  have le: "x \<le> availableLiquidity s"
    and s': "s' = snd (send e 0 (msg_sender e) x (withdrawWrites e x s))"
    by simp_all
  have "ledger_inv (withdrawWrites e x s)"
    using assms(1) le by (simp add: ledger_inv_def withdrawWrites_def outstanding_update)
  then show ?thesis
    unfolding s' by (rule untouched_inv [OF send_untouched])
qed

lemma inv_withdrawFinancing:
  assumes "ledger_inv s" and "withdrawFinancing g e i p r d n dl sg s = Inr s'"
  shows "ledger_inv s'"
proof -
  let ?w = "financingWrites e i p r d s"
  from withdrawFinancing_cases [where g = g and e = e and i = i and p = p and r = r
      and d = d and n = n and dl = dl and sg = sg and s = s] assms(2)
  have u: "\<not> usedInvoices s i" and le: "p \<le> availableLiquidity s"
    and s': "s' = snd (send e 0 (msg_sender e) p ?w)"
    by simp_all
  have "outstanding ?w = outstanding s + p"
    using outstanding_finance [OF u, of _ ?w] by (simp add: financingWrites_def)
  then have "ledger_inv ?w"
    using assms(1) le by (simp add: ledger_inv_def financingWrites_def)
  then show ?thesis
    unfolding s' by (rule untouched_inv [OF send_untouched])
qed

lemma inv_repay:
  assumes "ledger_inv s" and "repay g e v i s = Inr s'"
  shows "ledger_inv s'"
proof -
  from assms(2) obtain lp ti where u: "usedInvoices s i"
    and nr: "\<not> repaid (financingRecords s i)"
    and un: "untouched (repayWrites i lp ti s) s'"
    by (rule repay_committed)
  let ?w = "repayWrites i lp ti s"
  have "outstanding ?w + payoutAmount (financingRecords s i) = outstanding s"
    using outstanding_repay [OF u nr, of ?w] by (simp add: repayWrites_def)
  then have "ledger_inv ?w"
    using assms(1) by (simp add: ledger_inv_def repayWrites_def)
  with un show ?thesis by (rule untouched_inv)
qed

subsection \<open>Every transaction keeps the ledger invariant\<close>

lemma run_simps:
  "run g e v Deposit s = deposit g e v s"
  "run g e v Receive s = receive e v s"
  "run g e v (Repay iid) s = repay g e v iid s"
  "run g e 0 (Withdraw amount) s = withdraw g e amount s"
  "run g e 0 (WithdrawFinancing iid payout repayment due nonce deadline sg) s
     = withdrawFinancing g e iid payout repayment due nonce deadline sg s"
  "run g e 0 (UpdateAegisWallet w) s = updateAegisWallet e w s"
  "run g e 0 (UpdateProtocolFeeRate n) s = updateProtocolFeeRate e n s"
  "run g e 0 (UpdateProtocolFeeReceiver a) s = updateProtocolFeeReceiver e a s"
  "run g e 0 (GrantRole r a) s = grantRole e r a s"
  "run g e 0 (RevokeRole r a) s = revokeRole e r a s"
  "run g e 0 (RenounceRole r a) s = renounceRole e r a s"
  by (simp_all add: run_def payable_def)

lemma run_value:
  "v \<noteq> 0 \<Longrightarrow> \<not> payable op \<Longrightarrow> run g e v op s = Inl CallValueNotZero"
  by (simp add: run_def)

lemma run_Inr:
  assumes "run g e v op s = Inr s'"
  shows "run g e v op s = (case op of
        Deposit \<Rightarrow> deposit g e v s
      | Receive \<Rightarrow> receive e v s
      | Withdraw amount \<Rightarrow> withdraw g e amount s
      | WithdrawFinancing iid payout repayment due nonce deadline sg \<Rightarrow>
          withdrawFinancing g e iid payout repayment due nonce deadline sg s
      | Repay iid \<Rightarrow> repay g e v iid s
      | UpdateAegisWallet w \<Rightarrow> updateAegisWallet e w s
      | UpdateProtocolFeeRate r \<Rightarrow> updateProtocolFeeRate e r s
      | UpdateProtocolFeeReceiver a \<Rightarrow> updateProtocolFeeReceiver e a s
      | GrantRole r a \<Rightarrow> grantRole e r a s
      | RevokeRole r a \<Rightarrow> revokeRole e r a s
      | RenounceRole r a \<Rightarrow> renounceRole e r a s)"
  using assms by (simp add: run_def split: if_splits)

text \<open>The call that finds the guard entered is the call \<open>reenter\<close> describes.\<close>

lemma run_entered: "run ENTERED e v op s = reenter e v op s"
  by (cases op)
     (simp_all add: run_def reenter_def deposit_def withdraw_def withdrawFinancing_def
        repay_def nonReentrant_def)

lemma inv_run:
  assumes "ledger_inv s" and "run g e v op s = Inr s'"
  shows "ledger_inv s'"
proof (cases op)
  case Deposit
  with run_Inr [OF assms(2)] assms show ?thesis
    by (auto simp: deposit_def nonReentrant_def split: if_splits intro: inv_processDeposit)
next
  case Receive
  with run_Inr [OF assms(2)] assms show ?thesis
    by (auto simp: receive_def intro: inv_processDeposit)
next
  case (Withdraw n)
  with run_Inr [OF assms(2)] assms show ?thesis by (auto intro: inv_withdraw)
next
  case (WithdrawFinancing i p r d n dl sg)
  with run_Inr [OF assms(2)] assms show ?thesis by (auto intro: inv_withdrawFinancing)
next
  case (Repay i)
  with run_Inr [OF assms(2)] assms show ?thesis by (auto intro: inv_repay)
next
  case (UpdateAegisWallet w)
  with run_Inr [OF assms(2)] assms admin_untouched(1) [where e = e and w = w and s = s]
  show ?thesis by (auto intro: untouched_inv)
next
  case (UpdateProtocolFeeRate n)
  with run_Inr [OF assms(2)] assms admin_untouched(2) [where e = e and n = n and s = s]
  show ?thesis by (auto intro: untouched_inv)
next
  case (UpdateProtocolFeeReceiver a)
  with run_Inr [OF assms(2)] assms admin_untouched(3) [where e = e and a = a and s = s]
  show ?thesis by (auto intro: untouched_inv)
next
  case (GrantRole r a)
  with run_Inr [OF assms(2)] assms admin_untouched(4) [where e = e and r = r and a = a and s = s]
  show ?thesis by (auto intro: untouched_inv)
next
  case (RevokeRole r a)
  with run_Inr [OF assms(2)] assms admin_untouched(5) [where e = e and r = r and a = a and s = s]
  show ?thesis by (auto intro: untouched_inv)
next
  case (RenounceRole r a)
  with run_Inr [OF assms(2)] assms admin_untouched(6) [where e = e and r = r and a = a and s = s]
  show ?thesis by (auto intro: untouched_inv)
qed

lemma inv_exec: "ledger_inv s \<Longrightarrow> ledger_inv (snd (exec e v op s))"
  by (auto simp: exec_def transact_def split: sum.splits intro: inv_run)

lemma outstanding_unused: "(\<And>i. \<not> usedInvoices s i) \<Longrightarrow> outstanding s = 0"
  by (simp add: outstanding_def owed_def)

lemma constructor_cases:
  "case constructor e v a of Inl _ \<Rightarrow> True | Inr s \<Rightarrow>
     (\<forall>i. \<not> usedInvoices s i) \<and> totalPoolSize s = availableLiquidity s"
  by (simp add: constructor_def Let_def grantRole_internal_def zeroStorage_def)

lemma inv_constructor:
  assumes "constructor e v a = Inr s"
  shows "ledger_inv s"
proof -
  from constructor_cases [where e = e and v = v and a = a] assms
  have u: "\<And>i. \<not> usedInvoices s i" and eq: "totalPoolSize s = availableLiquidity s"
    by simp_all
  show ?thesis
    by (simp add: ledger_inv_def eq outstanding_unused [OF u])
qed

lemma reachable_inv: "reachable s \<Longrightarrow> ledger_inv s"
  by (induction rule: reachable.induct) (auto intro: inv_constructor inv_exec)

subsection \<open>Selectors of the concrete run\<close>

lemma send_quiet:
  "to \<noteq> address_this e \<Longrightarrow> callee e k to v = (True, []) \<Longrightarrow> send e k to v s = (True, s)"
  by (simp add: send_def)

lemma send_refused:
  "to \<noteq> address_this e \<Longrightarrow> \<not> fst (callee e k to v) \<Longrightarrow> send e k to v s = (False, s)"
  by (simp add: send_def)

lemma world_simps:
  "msg_sender (world a t) = a" "block_timestamp (world a t) = t"
  "address_this (world a t) = 100" "callee (world a t) = (\<lambda>_ _ _. (True, []))"
  "recover (world a t) = (\<lambda>_ _. Some 2)"
  by (simp_all add: world_def)

lemma genesis_simps:
  "aegisServerWallet genesis = 2" "totalPoolSize genesis = 1000000"
  "availableLiquidity genesis = 1000000" "totalFinanced genesis = 0"
  "totalInterestEarned genesis = 0" "protocolFeeRate genesis = 1000"
  "protocolFeeReceiver genesis = 1" "usedInvoices genesis = (\<lambda>_. False)"
  "lpDeposits genesis = (\<lambda>a. if a = 1 then 1000000 else 0)"
  "financingRecords genesis = (\<lambda>_. emptyRecord)" "hasRole genesis = adminOnly 2"
  by (simp_all add: genesis_def)

lemma financed_simps:
  "aegisServerWallet financed = 2" "totalPoolSize financed = 1000000"
  "availableLiquidity financed = 902000" "totalFinanced financed = 98000"
  "totalInterestEarned financed = 0" "protocolFeeRate financed = 1000"
  "protocolFeeReceiver financed = 1" "usedInvoices financed = (\<lambda>i. i = 7)"
  "lpDeposits financed = (\<lambda>a. if a = 1 then 1000000 else 0)"
  "financingRecords financed = (\<lambda>i. if i = 7 then invoice7 else emptyRecord)"
  "hasRole financed = adminOnly 2"
  by (simp_all add: financed_def genesis_def)

lemma invoice7_simps:
  "invoiceId invoice7 = 7" "supplier invoice7 = 3" "payoutAmount invoice7 = 98000"
  "repaymentAmount invoice7 = 100000" "dueDate invoice7 = 7777000"
  "timestamp invoice7 = 1000" "repaid invoice7 = False"
  by (simp_all add: invoice7_def)

lemma constructor_genesis: "constructor (world 1 1000) 1000000 2 = Inr genesis"
  by (simp add: constructor_def world_def genesis_def zeroStorage_def Let_def
      grantRole_internal_def adminOnly_def fun_eq_iff)

lemma financingWrites_genesis:
  "financingWrites (world 3 1000) 7 98000 100000 7777000 genesis = financed"
  by (simp add: financingWrites_def world_simps genesis_def financed_def invoice7_def fun_eq_iff)

lemma finance7_genesis:
  "withdrawFinancing NOT_ENTERED (world 3 1000) 7 98000 100000 7777000 1 2000 [] genesis
     = Inr financed"
  by (simp add: withdrawFinancing_def nonReentrant_def Let_def financingWrites_genesis
      send_quiet world_simps genesis_simps MAX_UINT256_def)

lemma exec_finance7: "exec (world 3 1000) 0 finance7 genesis = (Success, financed)"
  by (simp only: exec_def transact_def finance7_def run_simps finance7_genesis sum.case)

lemma reachable_financed: "reachable financed"
  using reachable.step [OF reachable.init [OF constructor_genesis], of "world 3 1000" 0 finance7]
  by (simp add: exec_finance7)

subsection \<open>C1: available liquidity never exceeds the pool size\<close>

text \<open>
  C1. In every state reachable from the constructor by any sequence of transactions
  (deposit, receive, withdraw, withdrawFinancing, repay, the admin functions and the role
  functions, each committed in full or reverted in full, with whatever calls the
  recipients of its transfers make meanwhile),
  \<open>0 \<le> availableLiquidity \<le> totalPoolSize\<close>.  The proof carries the stronger invariant
  \<open>ledger_inv\<close>: the pool size is the available liquidity plus the payouts still owed.
\<close>

theorem available_within_total:
  "reachable s \<Longrightarrow> 0 \<le> availableLiquidity s \<and> availableLiquidity s \<le> totalPoolSize s"
proof -
  assume "reachable s"
  then have "ledger_inv s" by (rule reachable_inv)
  then show ?thesis by (simp add: ledger_inv_def)
qed

theorem available_within_total_witness:
  "reachable financed \<and> availableLiquidity financed = 902000 \<and> totalPoolSize financed = 1000000
   \<and> 0 \<le> availableLiquidity financed \<and> availableLiquidity financed \<le> totalPoolSize financed"
  using available_within_total [OF reachable_financed] reachable_financed
  by (simp add: financed_def genesis_def)

subsection \<open>C2: the checks of withdrawFinancing, in order\<close>

text \<open>
  C2. \<open>withdrawFinancing\<close> succeeds only if the invoice is not in the used-invoice set, the
  deadline has not passed, the payout is within the available liquidity, the repayment
  exceeds the payout, the due date is in the future and the signature over
  \<open>(invoiceId, caller, payoutAmount, repaymentAmount, dueDate, nonce, deadline)\<close> recovers
  the current Aegis wallet.  The first of these that fails, in this order, decides the
  error (\<open>InvoiceAlreadyFinanced\<close>, \<open>SignatureExpired\<close>, \<open>InsufficientLiquidity\<close>,
  \<open>InvalidTerms\<close>, \<open>InvalidDueDate\<close>, \<open>InvalidSignature\<close>), and the storage is unchanged.
  (A call made while a guarded function runs is rejected by the guard before any of
  these, the storage unchanged as well.)
\<close>

theorem withdrawFinancing_checks:
  "(let out = transact (withdrawFinancing NOT_ENTERED e iid payout repayment due nonce deadline sg) s;
        signer = recover e \<lparr>req_invoiceId = iid, req_supplier = msg_sender e,
                 req_payoutAmount = payout, req_repaymentAmount = repayment,
                 req_dueDate = due, req_nonce = nonce, req_deadline = deadline\<rparr> sg
    in (usedInvoices s iid \<longrightarrow> out = (Reverted InvoiceAlreadyFinanced, s))
     \<and> (\<not> usedInvoices s iid \<and> block_timestamp e > deadline
          \<longrightarrow> out = (Reverted SignatureExpired, s))
     \<and> (\<not> usedInvoices s iid \<and> block_timestamp e \<le> deadline
          \<and> payout > availableLiquidity s
          \<longrightarrow> out = (Reverted InsufficientLiquidity, s))
     \<and> (\<not> usedInvoices s iid \<and> block_timestamp e \<le> deadline
          \<and> payout \<le> availableLiquidity s \<and> repayment \<le> payout
          \<longrightarrow> out = (Reverted InvalidTerms, s))
     \<and> (\<not> usedInvoices s iid \<and> block_timestamp e \<le> deadline
          \<and> payout \<le> availableLiquidity s \<and> repayment > payout
          \<and> due \<le> block_timestamp e
          \<longrightarrow> out = (Reverted InvalidDueDate, s))
     \<and> (\<not> usedInvoices s iid \<and> block_timestamp e \<le> deadline
          \<and> payout \<le> availableLiquidity s \<and> repayment > payout
          \<and> due > block_timestamp e \<and> signer \<noteq> Some (aegisServerWallet s)
          \<longrightarrow> out = (Reverted InvalidSignature, s))
     \<and> (fst out = Success
          \<longrightarrow> \<not> usedInvoices s iid \<and> block_timestamp e \<le> deadline
              \<and> payout \<le> availableLiquidity s \<and> repayment > payout
              \<and> due > block_timestamp e \<and> signer = Some (aegisServerWallet s)))
   \<and> transact (withdrawFinancing ENTERED e iid payout repayment due nonce deadline sg) s
       = (Reverted ReentrancyGuardReentrantCall, s)"
  by (simp add: transact_def withdrawFinancing_def nonReentrant_def Let_def)

theorem withdrawFinancing_checks_witness:
  "transact (withdrawFinancing NOT_ENTERED (world 3 1000) 7 98000 100000 7777000 1 2000 []) financed
     = (Reverted InvoiceAlreadyFinanced, financed)
   \<and> transact (withdrawFinancing NOT_ENTERED (world 3 1000) 8 98000 100000 7777000 1 999 []) financed
     = (Reverted SignatureExpired, financed)
   \<and> transact (withdrawFinancing NOT_ENTERED (world 3 1000) 8 902001 1000000 7777000 1 2000 []) financed
     = (Reverted InsufficientLiquidity, financed)
   \<and> transact (withdrawFinancing NOT_ENTERED (world 3 1000) 8 98000 98000 7777000 1 2000 []) financed
     = (Reverted InvalidTerms, financed)
   \<and> transact (withdrawFinancing NOT_ENTERED (world 3 1000) 8 98000 100000 1000 1 2000 []) financed
     = (Reverted InvalidDueDate, financed)
   \<and> transact (withdrawFinancing NOT_ENTERED ((world 3 1000)\<lparr>recover := (\<lambda>_ _. Some 5)\<rparr>)
         8 98000 100000 7777000 1 2000 []) financed
     = (Reverted InvalidSignature, financed)
   \<and> fst (transact (withdrawFinancing NOT_ENTERED (world 3 1000) 7 98000 100000 7777000 1 2000 [])
          genesis)
     = Success
   \<and> \<not> usedInvoices genesis 7 \<and> 98000 \<le> availableLiquidity genesis"
proof -
  have ok: "fst (transact (withdrawFinancing NOT_ENTERED (world 3 1000) 7 98000 100000 7777000 1
      2000 []) genesis) = Success"
    by (simp only: transact_def finance7_genesis sum.case fst_conv)
  show ?thesis
    using
      withdrawFinancing_checks [where s = financed and e = "world 3 1000" and iid = 7
        and payout = 98000 and repayment = 100000 and due = 7777000 and nonce = 1
        and deadline = 2000 and sg = "[]"]
      withdrawFinancing_checks [where s = financed and e = "world 3 1000" and iid = 8
        and payout = 98000 and repayment = 100000 and due = 7777000 and nonce = 1
        and deadline = 999 and sg = "[]"]
      withdrawFinancing_checks [where s = financed and e = "world 3 1000" and iid = 8
        and payout = 902001 and repayment = 1000000 and due = 7777000 and nonce = 1
        and deadline = 2000 and sg = "[]"]
      withdrawFinancing_checks [where s = financed and e = "world 3 1000" and iid = 8
        and payout = 98000 and repayment = 98000 and due = 7777000 and nonce = 1
        and deadline = 2000 and sg = "[]"]
      withdrawFinancing_checks [where s = financed and e = "world 3 1000" and iid = 8
        and payout = 98000 and repayment = 100000 and due = 1000 and nonce = 1
        and deadline = 2000 and sg = "[]"]
      withdrawFinancing_checks [where s = financed
        and e = "(world 3 1000)\<lparr>recover := (\<lambda>_ _. Some 5)\<rparr>" and iid = 8
        and payout = 98000 and repayment = 100000 and due = 7777000 and nonce = 1
        and deadline = 2000 and sg = "[]"]
      withdrawFinancing_checks [where s = genesis and e = "world 3 1000" and iid = 7
        and payout = 98000 and repayment = 100000 and due = 7777000 and nonce = 1
        and deadline = 2000 and sg = "[]"]
      ok
    by (simp add: Let_def world_simps financed_simps genesis_simps)
qed

subsection \<open>C3: a failed transfer rolls the whole call back\<close>

text \<open>
  C3. When every check of \<open>withdrawFinancing\<close> passes and the payout transfer to the caller
  fails, and when the checks of \<open>withdraw\<close> pass and the transfer to the account fails, the
  call reverts and the storage after the call is the storage before it: the invoice is not
  marked used, no financing record is written, and the totals and LP positions are as they
  were.  (The revert is \<open>TransferFailed\<close>, unless a checked addition or subtraction before
  the transfer already panicked.)  The transfer is the one \<open>send\<close> makes on the storage the
  function has written; to a foreign recipient it fails exactly when the recipient does
  not return success.
\<close>

theorem transfer_failure_rolls_back:
  "(\<not> usedInvoices s iid \<and> block_timestamp e \<le> deadline
      \<and> payout \<le> availableLiquidity s \<and> repayment > payout \<and> due > block_timestamp e
      \<and> recover e \<lparr>req_invoiceId = iid, req_supplier = msg_sender e,
                 req_payoutAmount = payout, req_repaymentAmount = repayment,
                 req_dueDate = due, req_nonce = nonce, req_deadline = deadline\<rparr> sg
          = Some (aegisServerWallet s)
      \<and> \<not> fst (send e 0 (msg_sender e) payout (financingWrites e iid payout repayment due s))
    \<longrightarrow> transact (withdrawFinancing NOT_ENTERED e iid payout repayment due nonce deadline sg) s
          = (Reverted (if totalFinanced s + payout \<le> MAX_UINT256 then TransferFailed else Panic), s)
        \<and> \<not> usedInvoices
              (snd (transact (withdrawFinancing NOT_ENTERED e iid payout repayment due nonce
                     deadline sg) s)) iid)
   \<and> (amount > 0 \<and> amount \<le> lpDeposits s (msg_sender e) \<and> amount \<le> availableLiquidity s
      \<and> \<not> fst (send e 0 (msg_sender e) amount (withdrawWrites e amount s))
    \<longrightarrow> transact (withdraw NOT_ENTERED e amount) s
          = (Reverted (if amount \<le> totalPoolSize s then TransferFailed else Panic), s))
   \<and> (msg_sender e \<noteq> address_this e
    \<longrightarrow> fst (send e 0 (msg_sender e) x t) = fst (callee e 0 (msg_sender e) x))"
  by (simp add: transact_def withdrawFinancing_def withdraw_def nonReentrant_def Let_def send_def)

theorem transfer_failure_rolls_back_witness:
  "transact (withdrawFinancing NOT_ENTERED ((world 3 1000)\<lparr>callee := (\<lambda>_ _ _. (False, []))\<rparr>)
       7 98000 100000 7777000 1 2000 []) genesis
     = (Reverted TransferFailed, genesis)
   \<and> \<not> usedInvoices (snd (transact (withdrawFinancing NOT_ENTERED
         ((world 3 1000)\<lparr>callee := (\<lambda>_ _ _. (False, []))\<rparr>)
         7 98000 100000 7777000 1 2000 []) genesis)) 7
   \<and> transact (withdraw NOT_ENTERED ((world 1 1000)\<lparr>callee := (\<lambda>_ _ _. (False, []))\<rparr>) 500)
       genesis
     = (Reverted TransferFailed, genesis)"
  using transfer_failure_rolls_back [where s = genesis
      and e = "(world 3 1000)\<lparr>callee := (\<lambda>_ _ _. (False, []))\<rparr>" and iid = 7
      and payout = 98000 and repayment = 100000 and due = 7777000 and nonce = 1
      and deadline = 2000 and sg = "[]" and amount = 0]
    transfer_failure_rolls_back [where s = genesis
      and e = "(world 1 1000)\<lparr>callee := (\<lambda>_ _ _. (False, []))\<rparr>" and iid = 7
      and payout = 98000 and repayment = 100000 and due = 7777000 and nonce = 1
      and deadline = 2000 and sg = "[]" and amount = 500]
  by (simp add: world_simps genesis_simps MAX_UINT256_def send_def)

subsection \<open>C4: a used invoice is rejected, whatever the nonce\<close>

text \<open>
  C4. In every state where the invoice is in the used-invoice set, every call of
  \<open>withdrawFinancing\<close> with that invoice reverts with \<open>InvoiceAlreadyFinanced\<close> and leaves the
  storage as it was, for every nonce, deadline, terms, signature and caller: in particular
  a second request for the invoice of a successful first call is rejected even when it
  carries another nonce and a valid signature.  No table of used nonces exists; the nonce
  only enters the signed request.
\<close>

theorem used_invoice_rejected:
  "(usedInvoices s iid
     \<longrightarrow> transact (withdrawFinancing NOT_ENTERED e iid payout repayment due nonce deadline sg) s
           = (Reverted InvoiceAlreadyFinanced, s))
   \<and> (transact (withdrawFinancing NOT_ENTERED e iid payout repayment due nonce deadline sg) s
         = (Success, s1)
     \<longrightarrow> transact (withdrawFinancing NOT_ENTERED e' iid payout' repayment' due' nonce' deadline' sg') s1
           = (Reverted InvoiceAlreadyFinanced, s1))"
proof -
  have first: "usedInvoices s1 iid"
    if ok: "transact (withdrawFinancing NOT_ENTERED e iid payout repayment due nonce deadline sg) s
       = (Success, s1)"
  proof -
    from ok have run: "withdrawFinancing NOT_ENTERED e iid payout repayment due nonce deadline sg s
       = Inr s1"
      by (simp add: transact_def split: sum.splits)
    from withdrawFinancing_cases [where g = NOT_ENTERED and e = e and i = iid and p = payout
        and r = repayment and d = due and n = nonce and dl = deadline and sg = sg and s = s]
    have s1: "s1 = snd (send e 0 (msg_sender e) payout (financingWrites e iid payout repayment due s))"
      by (simp add: run)
    have "usedInvoices (financingWrites e iid payout repayment due s) iid"
      by (simp add: financingWrites_def)
    with send_untouched [where s = "financingWrites e iid payout repayment due s" and e = e
        and k = 0 and to = "msg_sender e" and v = payout]
    show ?thesis by (simp add: s1 untouched_def)
  qed
  have rej: "transact (withdrawFinancing NOT_ENTERED e2 iid p r d n dl g) t
      = (Reverted InvoiceAlreadyFinanced, t)"
    if "usedInvoices t iid" for e2 p r d n dl g t
    using that by (simp add: transact_def withdrawFinancing_def nonReentrant_def)
  show ?thesis
    using first rej by blast
qed

theorem used_invoice_rejected_witness:
  "usedInvoices financed 7
   \<and> recover (world 3 5000) \<lparr>req_invoiceId = 7, req_supplier = 3, req_payoutAmount = 1000,
         req_repaymentAmount = 2000, req_dueDate = 9000000, req_nonce = 2,
         req_deadline = 6000\<rparr> [] = Some (aegisServerWallet financed)
   \<and> transact (withdrawFinancing NOT_ENTERED (world 3 5000) 7 1000 2000 9000000 2 6000 []) financed
       = (Reverted InvoiceAlreadyFinanced, financed)"
  using used_invoice_rejected [where s = financed and e = "world 3 5000" and iid = 7
      and payout = 1000 and repayment = 2000 and due = 9000000 and nonce = 2
      and deadline = 6000 and sg = "[]", THEN conjunct1]
  by (simp add: world_simps financed_simps)

subsection \<open>Repayment: the fee block and the outcome of a successful call\<close>

lemma lateFeeBlock_eq:
  "lateFeeBlock r now =
     (if now \<le> dueDate r then Inr (repaymentAmount r, 0)
      else if repaymentAmount r * ((now - dueDate r) div 86400) * 100 \<le> MAX_UINT256
              \<and> repaymentAmount r * 3000 \<le> MAX_UINT256
      then Inr (repaymentAmount r + spec_lateFee (repaymentAmount r) (dueDate r) now,
                spec_lateFee (repaymentAmount r) (dueDate r) now)
      else Inl Panic)"
proof -
  let ?R = "repaymentAmount r"
  let ?d = "(now - dueDate r) div 86400"
  have a: "?R * ?d \<le> ?R * ?d * 100" by simp
  have b: "(?R * ?d * 100) div 10000 = ?R * ?d div 100" by simp
  have c: "(?R * 3000) div 10000 = ?R * 30 div 100" by simp
  have d: "?R + ?R * 30 div 100 \<le> ?R * 3000" by simp
  have e: "(if x > y then y else x) = min x y" for x y :: nat by (simp add: min_def)
  show ?thesis
  proof (cases "now \<le> dueDate r")
    case True
    then show ?thesis by (simp add: lateFeeBlock_def)
  next
    case False
    have fee: "spec_lateFee ?R (dueDate r) now = min (?R * ?d div 100) (?R * 30 div 100)"
      using False by (simp add: spec_lateFee_def)
    have le: "?R + min (?R * ?d div 100) (?R * 30 div 100) \<le> ?R * 3000"
      using d by (simp add: min_def)
    show ?thesis
      using False a le
      by (simp only: lateFeeBlock_def Let_def b c e fee) auto
  qed
qed

lemma lateFeeBlock_Inr:
  assumes "lateFeeBlock r now = Inr (req, fee)"
  shows "fee = spec_lateFee (repaymentAmount r) (dueDate r) now \<and> req = repaymentAmount r + fee"
proof -
  have "now \<le> dueDate r \<Longrightarrow> spec_lateFee (repaymentAmount r) (dueDate r) now = 0"
    by (simp add: spec_lateFee_def)
  then show ?thesis
    using assms unfolding lateFeeBlock_eq by (auto split: if_splits)
qed

lemma send_no_calls:
  "to \<noteq> address_this e \<Longrightarrow> snd (callee e k to v) = [] \<Longrightarrow> snd (send e k to v s) = s"
  by (simp add: send_def)

lemma repayTransfers_quiet:
  assumes "protocolFeeReceiver w \<noteq> address_this e" and "msg_sender e \<noteq> address_this e"
    and "snd (callee e 0 (protocolFeeReceiver w) fee) = []"
    and "snd (callee e 1 (msg_sender e) (v - req)) = []"
    and "repayTransfers e v req fee w = Inr s'"
  shows "s' = w"
proof -
  have a: "snd (send e 0 (protocolFeeReceiver w) fee w) = w"
    using assms(1,3) by (rule send_no_calls)
  have b: "snd (send e (Suc 0) (msg_sender e) (v - req) w) = w"
    using assms(2,4) by (simp add: send_no_calls)
  from assms(5) show ?thesis
    by (simp add: repayTransfers_def Let_def a b split: if_splits)
qed

lemma repayTransfers_fee:
  assumes "repayTransfers e v req fee w = Inr s'"
  shows "fee = 0 \<or> fst (send e 0 (protocolFeeReceiver w) fee w)"
  using assms by (simp add: repayTransfers_def Let_def split: if_splits)


subsection \<open>Repayments of the concrete run\<close>

lemma repayWrites_financed:
  "repayWrites 7 1800 2000 financed = settled"
  by (simp add: repayWrites_def financed_simps invoice7_simps settled_def financed_def
      genesis_def fun_eq_iff)

lemma repay_on_time: "repay NOT_ENTERED (world 4 5000) 100000 7 financed = Inr settled"
  by (simp add: repay_def nonReentrant_def lateFeeBlock_def Let_def world_simps financed_simps
      invoice7_simps MAX_UINT256_def repayWrites_financed repayTransfers_def send_quiet
      settled_def)





lemma repay_insufficient:
  "usedInvoices s iid \<Longrightarrow> \<not> repaid (financingRecords s iid) \<Longrightarrow>
   lateFeeBlock (financingRecords s iid) (block_timestamp e) = Inr (req, fee) \<Longrightarrow>
   v < req \<Longrightarrow> repay NOT_ENTERED e v iid s = Inl InsufficientRepayment"
  by (simp add: repay_def nonReentrant_def Let_def)

lemma lateFeeBlock_Inl: "lateFeeBlock r now = Inl err \<Longrightarrow> err = Panic"
  unfolding lateFeeBlock_eq by (simp split: if_splits)

lemma repay_panic:
  "usedInvoices s iid \<Longrightarrow> \<not> repaid (financingRecords s iid) \<Longrightarrow>
   lateFeeBlock (financingRecords s iid) (block_timestamp e) = Inl err \<Longrightarrow>
   repay NOT_ENTERED e v iid s = Inl Panic"
  using lateFeeBlock_Inl [of "financingRecords s iid" "block_timestamp e" err]
  by (simp add: repay_def nonReentrant_def Let_def)

lemma repayWrites_late: "repayWrites 7 10800 12000 financed = settledLate"
  by (simp add: repayWrites_def financed_simps invoice7_simps settledLate_def financed_def
      genesis_def fun_eq_iff)

lemma repay_ten_days_late:
  "repay NOT_ENTERED (world 4 8641000) 110000 7 financed = Inr settledLate"
  by (simp add: repay_def nonReentrant_def lateFeeBlock_def Let_def world_simps financed_simps
      invoice7_simps MAX_UINT256_def repayWrites_late repayTransfers_def send_quiet
      settledLate_def)

lemma invoice8_simps:
  "invoiceId invoice8 = 8" "supplier invoice8 = 3" "payoutAmount invoice8 = 1000"
  "repaymentAmount invoice8 = 2 ^ 255" "dueDate invoice8 = 7777000"
  "timestamp invoice8 = 1100" "repaid invoice8 = False"
  by (simp_all add: invoice8_def)

lemma oversized_simps:
  "totalPoolSize oversized = 1000000" "availableLiquidity oversized = 901000"
  "usedInvoices oversized = (\<lambda>i. i = 7 \<or> i = 8)"
  "financingRecords oversized
     = (\<lambda>i. if i = 8 then invoice8 else if i = 7 then invoice7 else emptyRecord)"
  by (simp_all add: oversized_def financed_simps)

lemma financingWrites_financed:
  "financingWrites (world 3 1100) 8 1000 (2 ^ 255) 7777000 financed = oversized"
  by (simp add: financingWrites_def world_simps financed_simps oversized_def invoice8_def
      financed_def genesis_def fun_eq_iff)

lemma finance8_financed:
  "withdrawFinancing NOT_ENTERED (world 3 1100) 8 1000 (2 ^ 255) 7777000 2 2000 [] financed
     = Inr oversized"
  by (simp add: withdrawFinancing_def nonReentrant_def Let_def
      financingWrites_financed [simplified] send_quiet world_simps financed_simps
      MAX_UINT256_def)

lemma exec_finance8: "exec (world 3 1100) 0 finance8 financed = (Success, oversized)"
  by (simp only: exec_def transact_def finance8_def run_simps finance8_financed sum.case)

lemma reachable_oversized: "reachable oversized"
  using reachable.step [OF reachable_financed, of "world 3 1100" 0 finance8]
  by (simp add: exec_finance8)

lemma lateFeeBlock_oversized: "lateFeeBlock invoice8 7777001 = Inl Panic"
  by (simp add: lateFeeBlock_def Let_def invoice8_simps MAX_UINT256_def)

subsection \<open>C5: what a successful repay does\<close>




subsection \<open>C6: the late fee\<close>

text \<open>
  C6, as amended.  The late-fee block of \<open>repay\<close> gives a fee of 0 up to the due date.
  Afterwards, with \<open>daysLate = (now - dueDate) div 86400\<close>, it gives the smaller of
  \<open>repaymentAmount * daysLate * 1%\<close> and \<open>repaymentAmount * 30%\<close> (every division rounded
  down) provided \<open>repaymentAmount * daysLate * 100\<close> and \<open>repaymentAmount * 3000\<close> both fit 256
  bits; when one of them does not, no fee is computed: the block panics and \<open>repay\<close>
  reverts, whatever is paid.  A computed fee is added to the required repayment: less than
  \<open>repaymentAmount + lateFee\<close> is rejected with \<open>InsufficientRepayment\<close>, and a successful
  call brought at least that much and books \<open>(repaymentAmount - payoutAmount) + lateFee\<close>
  as interest.  A repayment of 100,000 made ten days late owes a fee of 10,000, 110,000 in
  all; with a payout of 98,000 at 1000 basis points the interest is 12,000, of which 1,200
  is sent as protocol fee and 10,800 is written to the pool, whose size and liquidity
  after the call are 10,800 and 108,800 higher when no call is made during the transfers.
\<close>

theorem late_fee_formula:
  "lateFeeBlock r now =
     (let amount = repaymentAmount r;
          daysLate = (now - dueDate r) div 86400;
          fee = min (amount * daysLate div 100) (amount * 30 div 100)
      in if now \<le> dueDate r then Inr (amount, 0)
         else if amount * daysLate * 100 \<le> MAX_UINT256 \<and> amount * 3000 \<le> MAX_UINT256
         then Inr (amount + fee, fee)
         else Inl Panic)
   \<and> (usedInvoices s iid \<and> \<not> repaid (financingRecords s iid)
        \<and> lateFeeBlock (financingRecords s iid) (block_timestamp e) = Inl err
      \<longrightarrow> transact (repay NOT_ENTERED e v iid) s = (Reverted Panic, s))
   \<and> (usedInvoices s iid \<and> \<not> repaid (financingRecords s iid)
        \<and> lateFeeBlock (financingRecords s iid) (block_timestamp e) = Inr (req, lateFee)
      \<longrightarrow> lateFee = spec_lateFee (repaymentAmount (financingRecords s iid))
                      (dueDate (financingRecords s iid)) (block_timestamp e)
          \<and> req = repaymentAmount (financingRecords s iid) + lateFee
          \<and> (v < req
             \<longrightarrow> transact (repay NOT_ENTERED e v iid) s = (Reverted InsufficientRepayment, s))
          \<and> (transact (repay NOT_ENTERED e v iid) s = (Success, s')
             \<longrightarrow> req \<le> v
                 \<and> totalInterestEarned s' = totalInterestEarned s
                      + ((repaymentAmount (financingRecords s iid)
                           - payoutAmount (financingRecords s iid)) + lateFee)))
   \<and> (repaymentAmount r = 100000 \<and> now = dueDate r + 10 * 86400
      \<longrightarrow> lateFeeBlock r now = Inr (110000, 10000))
   \<and> (repaymentAmount (financingRecords s iid) = 100000
        \<and> payoutAmount (financingRecords s iid) = 98000
        \<and> block_timestamp e = dueDate (financingRecords s iid) + 10 * 86400
        \<and> protocolFeeRate s = 1000
        \<and> transact (repay NOT_ENTERED e v iid) s = (Success, s')
      \<longrightarrow> 110000 \<le> v
          \<and> repayTransfers e v 110000 1200 (repayWrites iid 10800 12000 s) = Inr s'
          \<and> fst (send e 0 (protocolFeeReceiver s) 1200 (repayWrites iid 10800 12000 s))
          \<and> totalInterestEarned s' = totalInterestEarned s + 12000
          \<and> totalPoolSize s + 10800 \<le> totalPoolSize s'
          \<and> totalPoolSize s' + availableLiquidity s + 98000
              = totalPoolSize s + availableLiquidity s'
          \<and> (protocolFeeReceiver s \<noteq> address_this e \<and> msg_sender e \<noteq> address_this e
               \<and> snd (callee e 0 (protocolFeeReceiver s) 1200) = []
               \<and> snd (callee e 1 (msg_sender e) (v - 110000)) = []
             \<longrightarrow> totalPoolSize s' = totalPoolSize s + 10800
                 \<and> availableLiquidity s' = availableLiquidity s + 98000 + 10800))"
proof -
  let ?r = "financingRecords s iid"
  have formula: "lateFeeBlock r now =
     (let amount = repaymentAmount r;
          daysLate = (now - dueDate r) div 86400;
          fee = min (amount * daysLate div 100) (amount * 30 div 100)
      in if now \<le> dueDate r then Inr (amount, 0)
         else if amount * daysLate * 100 \<le> MAX_UINT256 \<and> amount * 3000 \<le> MAX_UINT256
         then Inr (amount + fee, fee)
         else Inl Panic)" for r now
    unfolding lateFeeBlock_eq Let_def by (simp add: spec_lateFee_def)
  have ten: "lateFeeBlock r now = Inr (110000, 10000)"
    if "repaymentAmount r = 100000" "now = dueDate r + 10 * 86400" for r now
    unfolding lateFeeBlock_eq using that by (simp add: spec_lateFee_def MAX_UINT256_def)
  have panic: "transact (repay NOT_ENTERED e v iid) s = (Reverted Panic, s)"
    if "usedInvoices s iid" "\<not> repaid ?r" "lateFeeBlock ?r (block_timestamp e) = Inl err"
    using repay_panic [OF that] by (simp add: transact_def)
  have settle: "req \<le> v
      \<and> repayTransfers e v req (((repaymentAmount ?r - payoutAmount ?r) + fee)
              * protocolFeeRate s div 10000)
           (repayWrites iid
              (((repaymentAmount ?r - payoutAmount ?r) + fee)
                 - ((repaymentAmount ?r - payoutAmount ?r) + fee) * protocolFeeRate s div 10000)
              ((repaymentAmount ?r - payoutAmount ?r) + fee) s) = Inr s'"
    if blk: "lateFeeBlock ?r (block_timestamp e) = Inr (req, fee)"
      and ok: "transact (repay NOT_ENTERED e v iid) s = (Success, s')" for req fee
  proof -
    from ok have run: "repay NOT_ENTERED e v iid s = Inr s'"
      by (simp add: transact_def split: sum.splits)
    show ?thesis
      using repay_outcome_raw [OF blk, where g = NOT_ENTERED and v = v]
      by (simp only: run sum.case Let_def)
  qed
  have earned: "totalInterestEarned s' = totalInterestEarned s + ti"
    if "repayTransfers e v req pf (repayWrites iid lp ti s) = Inr s'" for req pf lp ti
    using repayTransfers_untouched [where e = e and v = v and req = req and fee = pf
        and ?s1.0 = "repayWrites iid lp ti s"] that
    by (simp add: untouched_def repayWrites_def)
  have required: "lateFee = spec_lateFee (repaymentAmount ?r) (dueDate ?r) (block_timestamp e)
          \<and> req = repaymentAmount ?r + lateFee
          \<and> (v < req
             \<longrightarrow> transact (repay NOT_ENTERED e v iid) s = (Reverted InsufficientRepayment, s))
          \<and> (transact (repay NOT_ENTERED e v iid) s = (Success, s')
             \<longrightarrow> req \<le> v
                 \<and> totalInterestEarned s' = totalInterestEarned s
                      + ((repaymentAmount ?r - payoutAmount ?r) + lateFee))"
    if "usedInvoices s iid" "\<not> repaid ?r"
      "lateFeeBlock ?r (block_timestamp e) = Inr (req, lateFee)"
    using repay_insufficient [OF that, of v] settle [OF that(3)] earned
      lateFeeBlock_Inr [OF that(3)]
    by (auto simp add: transact_def)
  have scenario: "110000 \<le> v
          \<and> repayTransfers e v 110000 1200 (repayWrites iid 10800 12000 s) = Inr s'
          \<and> fst (send e 0 (protocolFeeReceiver s) 1200 (repayWrites iid 10800 12000 s))
          \<and> totalInterestEarned s' = totalInterestEarned s + 12000
          \<and> totalPoolSize s + 10800 \<le> totalPoolSize s'
          \<and> totalPoolSize s' + availableLiquidity s + 98000
              = totalPoolSize s + availableLiquidity s'
          \<and> (protocolFeeReceiver s \<noteq> address_this e \<and> msg_sender e \<noteq> address_this e
               \<and> snd (callee e 0 (protocolFeeReceiver s) 1200) = []
               \<and> snd (callee e 1 (msg_sender e) (v - 110000)) = []
             \<longrightarrow> totalPoolSize s' = totalPoolSize s + 10800
                 \<and> availableLiquidity s' = availableLiquidity s + 98000 + 10800)"
    if a: "repaymentAmount ?r = 100000" and b: "payoutAmount ?r = 98000"
      and c: "block_timestamp e = dueDate ?r + 10 * 86400"
      and d: "protocolFeeRate s = 1000"
      and ok: "transact (repay NOT_ENTERED e v iid) s = (Success, s')"
  proof -
    let ?w = "repayWrites iid 10800 12000 s"
    from settle [OF ten [OF a c] ok]
    have enough: "110000 \<le> v" and tr: "repayTransfers e v 110000 1200 ?w = Inr s'"
      by (simp_all add: a b d)
    have rcv: "protocolFeeReceiver ?w = protocolFeeReceiver s"
      by (simp add: repayWrites_def)
    have paid: "fst (send e 0 (protocolFeeReceiver s) 1200 ?w)"
      using repayTransfers_fee [OF tr] by (simp add: rcv)
    have un: "untouched ?w s'"
      using repayTransfers_untouched [where e = e and v = v and req = 110000 and fee = 1200
          and ?s1.0 = ?w] by (simp add: tr)
    have quiet: "s' = ?w"
      if "protocolFeeReceiver s \<noteq> address_this e" "msg_sender e \<noteq> address_this e"
        "snd (callee e 0 (protocolFeeReceiver s) 1200) = []"
        "snd (callee e 1 (msg_sender e) (v - 110000)) = []"
      using repayTransfers_quiet [OF _ that(2) _ that(4) tr] that(1,3) by (simp add: rcv)
    have q: "totalPoolSize s' = totalPoolSize s + 10800
        \<and> availableLiquidity s' = availableLiquidity s + 98000 + 10800"
      if "s' = ?w"
      by (simp add: that repayWrites_def b)
    show ?thesis
      using enough tr paid un quiet q
      by (auto simp add: untouched_def repayWrites_def b)
  qed
  from formula [of r now] ten [of r now] panic required scenario show ?thesis
    by blast
qed

theorem late_fee_formula_witness:
  "lateFeeBlock invoice7 8641000 = Inr (110000, 10000)
   \<and> lateFeeBlock invoice7 7777000 = Inr (100000, 0)
   \<and> transact (repay NOT_ENTERED (world 4 8641000) 109999 7) financed
       = (Reverted InsufficientRepayment, financed)
   \<and> transact (repay NOT_ENTERED (world 4 8641000) 110000 7) financed = (Success, settledLate)
   \<and> totalInterestEarned settledLate = totalInterestEarned financed + 12000
   \<and> totalPoolSize settledLate = totalPoolSize financed + 10800
   \<and> availableLiquidity settledLate = availableLiquidity financed + 98000 + 10800
   \<and> fst (send (world 4 8641000) 0 (protocolFeeReceiver financed) 1200
            (repayWrites 7 10800 12000 financed))
   \<and> lateFeeBlock invoice8 7777001 = Inl Panic
   \<and> transact (repay NOT_ENTERED (world 4 7777001) (2 ^ 255) 8) oversized
       = (Reverted Panic, oversized)"
proof -
  have blk: "lateFeeBlock invoice7 8641000 = Inr (110000, 10000)"
    using late_fee_formula [where r = invoice7 and now = 8641000, THEN conjunct1]
    by (simp add: Let_def invoice7_simps MAX_UINT256_def)
  have due: "lateFeeBlock invoice7 7777000 = Inr (100000, 0)"
    using late_fee_formula [where r = invoice7 and now = 7777000, THEN conjunct1]
    by (simp add: Let_def invoice7_simps MAX_UINT256_def)
  have big: "lateFeeBlock invoice8 7777001 = Inl Panic"
    using late_fee_formula [where r = invoice8 and now = 7777001, THEN conjunct1]
    by (simp add: Let_def invoice8_simps MAX_UINT256_def)
  have panic: "transact (repay NOT_ENTERED (world 4 7777001) (2 ^ 255) 8) oversized
       = (Reverted Panic, oversized)"
    using late_fee_formula [where s = oversized and iid = 8 and e = "world 4 7777001"
        and v = "2 ^ 255" and err = Panic, THEN conjunct2, THEN conjunct1] big
    by (simp add: world_simps oversized_simps invoice8_simps)
  have short: "transact (repay NOT_ENTERED (world 4 8641000) 109999 7) financed
       = (Reverted InsufficientRepayment, financed)"
    using late_fee_formula [where s = financed and iid = 7 and e = "world 4 8641000"
        and v = 109999 and req = 110000 and lateFee = 10000,
        THEN conjunct2, THEN conjunct2, THEN conjunct1] blk
    by (simp add: world_simps financed_simps invoice7_simps)
  have ok: "transact (repay NOT_ENTERED (world 4 8641000) 110000 7) financed
       = (Success, settledLate)"
    by (simp add: transact_def repay_ten_days_late)
  have full: "totalInterestEarned settledLate = totalInterestEarned financed + 12000
      \<and> totalPoolSize settledLate = totalPoolSize financed + 10800
      \<and> availableLiquidity settledLate = availableLiquidity financed + 98000 + 10800
      \<and> fst (send (world 4 8641000) 0 (protocolFeeReceiver financed) 1200
            (repayWrites 7 10800 12000 financed))"
    using late_fee_formula [where s = financed and iid = 7 and e = "world 4 8641000"
        and v = 110000 and s' = settledLate,
        THEN conjunct2, THEN conjunct2, THEN conjunct2, THEN conjunct2] ok
    by (simp add: world_simps financed_simps invoice7_simps)
  from blk due short full ok big panic show ?thesis by simp
qed

text \<open>
  The claim as stated fails for a repayment amount whose product with 3000 leaves 256
  bits.  Invoice 8 is financed, through a signed request, with a repayment amount of
  \<open>2 ^ 255\<close> due at 7,777,000.  One second late no full day has passed and the stated fee
  is 0, so that the stated required repayment is the repayment amount; the code computes
  the cap \<open>repaymentAmount * 3000\<close> first, panics, and rejects the repayment of exactly that
  amount.
\<close>

theorem late_fee_formula_counterexample:
  "reachable oversized
   \<and> usedInvoices oversized 8 \<and> \<not> repaid (financingRecords oversized 8)
   \<and> repaymentAmount (financingRecords oversized 8) = 2 ^ 255
   \<and> dueDate (financingRecords oversized 8) < block_timestamp (world 4 7777001)
   \<and> spec_lateFee (repaymentAmount (financingRecords oversized 8))
        (dueDate (financingRecords oversized 8)) (block_timestamp (world 4 7777001)) = 0
   \<and> lateFeeBlock (financingRecords oversized 8) (block_timestamp (world 4 7777001)) = Inl Panic
   \<and> exec (world 4 7777001) (2 ^ 255) (Repay 8) oversized = (Reverted Panic, oversized)"
proof -
  have run: "repay NOT_ENTERED (world 4 7777001) (2 ^ 255) 8 oversized = Inl Panic"
    using repay_panic [where s = oversized and iid = 8 and e = "world 4 7777001"
        and err = Panic and v = "2 ^ 255"] lateFeeBlock_oversized
    by (simp add: oversized_simps invoice8_simps world_simps)
  have ex: "exec (world 4 7777001) (2 ^ 255) (Repay 8) oversized = (Reverted Panic, oversized)"
    by (simp only: exec_def transact_def run_def payable_def operation.case simp_thms
        if_False run sum.case)
  show ?thesis
    using reachable_oversized ex lateFeeBlock_oversized
    by (simp add: oversized_simps invoice8_simps world_simps spec_lateFee_def)
qed

subsection \<open>What a call does to the used-invoice set and the records\<close>

lemma untouched_records:
  "untouched s s' \<Longrightarrow>
     usedInvoices s' = usedInvoices s \<and> financingRecords s' = financingRecords s"
  by (simp add: untouched_def)

lemma processDeposit_frame:
  "case processDeposit a x s of Inl _ \<Rightarrow> True | Inr s' \<Rightarrow>
     usedInvoices s' = usedInvoices s \<and> financingRecords s' = financingRecords s"
  by (simp add: processDeposit_def)

lemma withdraw_frame:
  "case withdraw g e x s of Inl _ \<Rightarrow> True | Inr s' \<Rightarrow>
     usedInvoices s' = usedInvoices s \<and> financingRecords s' = financingRecords s"
proof -
  have "untouched (withdrawWrites e x s) (snd (send e 0 (msg_sender e) x (withdrawWrites e x s)))"
    by (rule send_untouched)
  then have "usedInvoices (snd (send e 0 (msg_sender e) x (withdrawWrites e x s)))
        = usedInvoices s
      \<and> financingRecords (snd (send e 0 (msg_sender e) x (withdrawWrites e x s)))
        = financingRecords s"
    by (simp add: untouched_def withdrawWrites_def)
  with withdraw_cases [where g = g and e = e and x = x and s = s] show ?thesis
    by (simp split: sum.splits)
qed

lemma withdrawFinancing_records:
  "case withdrawFinancing g e i p r d n dl sg s of Inl _ \<Rightarrow> True | Inr s' \<Rightarrow>
     \<not> usedInvoices s i
     \<and> usedInvoices s' = (usedInvoices s)(i := True)
     \<and> financingRecords s' = (financingRecords s)(i :=
           \<lparr>invoiceId = i, supplier = msg_sender e, payoutAmount = p, repaymentAmount = r,
            dueDate = d, timestamp = block_timestamp e, repaid = False\<rparr>)"
proof -
  have "untouched (financingWrites e i p r d s)
      (snd (send e 0 (msg_sender e) p (financingWrites e i p r d s)))"
    by (rule send_untouched)
  then have "usedInvoices (snd (send e 0 (msg_sender e) p (financingWrites e i p r d s)))
        = (usedInvoices s)(i := True)
      \<and> financingRecords (snd (send e 0 (msg_sender e) p (financingWrites e i p r d s)))
        = (financingRecords s)(i :=
           \<lparr>invoiceId = i, supplier = msg_sender e, payoutAmount = p, repaymentAmount = r,
            dueDate = d, timestamp = block_timestamp e, repaid = False\<rparr>)"
    by (simp add: untouched_def financingWrites_def)
  with withdrawFinancing_cases [where g = g and e = e and i = i and p = p and r = r
      and d = d and n = n and dl = dl and sg = sg and s = s] show ?thesis
    by (simp split: sum.splits)
qed

lemma repay_records:
  "case repay g e v i s of Inl _ \<Rightarrow> True | Inr s' \<Rightarrow>
     usedInvoices s i \<and> \<not> repaid (financingRecords s i)
     \<and> usedInvoices s' = usedInvoices s
     \<and> financingRecords s' = (financingRecords s)(i :=
          (financingRecords s i)\<lparr>repaid := True\<rparr>)"
proof (cases "repay g e v i s")
  case (Inl err)
  then show ?thesis by simp
next
  case (Inr s')
  then obtain lp ti where "usedInvoices s i" "\<not> repaid (financingRecords s i)"
    "untouched (repayWrites i lp ti s) s'"
    by (rule repay_committed)
  then show ?thesis
    by (simp add: Inr untouched_def repayWrites_def)
qed

lemma admin_frame:
  "case updateAegisWallet e w s of Inl _ \<Rightarrow> True | Inr s' \<Rightarrow>
     usedInvoices s' = usedInvoices s \<and> financingRecords s' = financingRecords s"
  "case updateProtocolFeeRate e n s of Inl _ \<Rightarrow> True | Inr s' \<Rightarrow>
     usedInvoices s' = usedInvoices s \<and> financingRecords s' = financingRecords s"
  "case updateProtocolFeeReceiver e a s of Inl _ \<Rightarrow> True | Inr s' \<Rightarrow>
     usedInvoices s' = usedInvoices s \<and> financingRecords s' = financingRecords s"
  "case grantRole e r a s of Inl _ \<Rightarrow> True | Inr s' \<Rightarrow>
     usedInvoices s' = usedInvoices s \<and> financingRecords s' = financingRecords s"
  "case revokeRole e r a s of Inl _ \<Rightarrow> True | Inr s' \<Rightarrow>
     usedInvoices s' = usedInvoices s \<and> financingRecords s' = financingRecords s"
  "case renounceRole e r a s of Inl _ \<Rightarrow> True | Inr s' \<Rightarrow>
     usedInvoices s' = usedInvoices s \<and> financingRecords s' = financingRecords s"
  by (simp_all add: updateAegisWallet_def updateProtocolFeeRate_def
      updateProtocolFeeReceiver_def grantRole_def revokeRole_def renounceRole_def
      onlyRole_def Let_def grantRole_internal_def revokeRole_internal_def)

text \<open>What one committed call does to the used-invoice set and the financing records.\<close>

lemma run_records:
  assumes "run g e v op s = Inr s'"
  shows "(usedInvoices s' = usedInvoices s \<and> financingRecords s' = financingRecords s)
    \<or> (\<exists>i p r d n dl sg. op = WithdrawFinancing i p r d n dl sg
          \<and> \<not> usedInvoices s i \<and> usedInvoices s' = (usedInvoices s)(i := True)
          \<and> financingRecords s' = (financingRecords s)(i :=
               \<lparr>invoiceId = i, supplier = msg_sender e, payoutAmount = p, repaymentAmount = r,
                dueDate = d, timestamp = block_timestamp e, repaid = False\<rparr>))
    \<or> (\<exists>i. op = Repay i \<and> usedInvoices s i \<and> \<not> repaid (financingRecords s i)
          \<and> usedInvoices s' = usedInvoices s
          \<and> financingRecords s' = (financingRecords s)(i :=
               (financingRecords s i)\<lparr>repaid := True\<rparr>))"
proof -
  note run = run_Inr [OF assms, unfolded assms, symmetric]
  show ?thesis
  proof (cases op)
    case Deposit
    with run processDeposit_frame [where a = "msg_sender e" and x = v and s = s]
    show ?thesis by (simp add: deposit_def nonReentrant_def split: if_splits)
  next
    case Receive
    with run processDeposit_frame [where a = "msg_sender e" and x = v and s = s]
    show ?thesis by (simp add: receive_def)
  next
    case (Withdraw x)
    with run withdraw_frame [where g = g and e = e and x = x and s = s]
    show ?thesis by simp
  next
    case (WithdrawFinancing i p r d n dl sg)
    with run withdrawFinancing_records [where g = g and e = e and i = i and p = p and r = r
        and d = d and n = n and dl = dl and sg = sg and s = s]
    show ?thesis by simp
  next
    case (Repay i)
    with run repay_records [where g = g and e = e and v = v and i = i and s = s]
    show ?thesis by simp
  next
    case (UpdateAegisWallet w)
    with run admin_frame(1) [where e = e and w = w and s = s]
    show ?thesis by simp
  next
    case (UpdateProtocolFeeRate n)
    with run admin_frame(2) [where e = e and n = n and s = s]
    show ?thesis by simp
  next
    case (UpdateProtocolFeeReceiver a)
    with run admin_frame(3) [where e = e and a = a and s = s]
    show ?thesis by simp
  next
    case (GrantRole r a)
    with run admin_frame(4) [where e = e and r = r and a = a and s = s]
    show ?thesis by simp
  next
    case (RevokeRole r a)
    with run admin_frame(5) [where e = e and r = r and a = a and s = s]
    show ?thesis by simp
  next
    case (RenounceRole r a)
    with run admin_frame(6) [where e = e and r = r and a = a and s = s]
    show ?thesis by simp
  qed
qed

lemma exec_cases:
  "(\<exists>err. exec e v op s = (Reverted err, s))
   \<or> (\<exists>s'. exec e v op s = (Success, s') \<and> run NOT_ENTERED e v op s = Inr s')"
  by (cases "run NOT_ENTERED e v op s") (simp_all add: exec_def transact_def)

lemma exec_created:
  assumes "exec e v op s = (out, s')" and "\<not> usedInvoices s i"
    and "usedInvoices s' i \<or> financingRecords s' i \<noteq> financingRecords s i"
  shows "out = Success \<and> usedInvoices s' i
    \<and> (\<exists>p r d n dl sg. op = WithdrawFinancing i p r d n dl sg
          \<and> financingRecords s' i =
               \<lparr>invoiceId = i, supplier = msg_sender e, payoutAmount = p, repaymentAmount = r,
                dueDate = d, timestamp = block_timestamp e, repaid = False\<rparr>)"
proof -
  from exec_cases [of e v op s] assms
  have ok: "out = Success" and run: "run NOT_ENTERED e v op s = Inr s'"
    by auto
  from run_records [OF run] assms(2,3) ok show ?thesis
    by (auto split: if_splits)
qed

lemma exec_changed:
  assumes "exec e v op s = (out, s')" and "usedInvoices s i"
    and "financingRecords s' i \<noteq> financingRecords s i"
  shows "out = Success \<and> op = Repay i \<and> \<not> repaid (financingRecords s i)
    \<and> financingRecords s' i = (financingRecords s i)\<lparr>repaid := True\<rparr>"
proof -
  from exec_cases [of e v op s] assms
  have ok: "out = Success" and run: "run NOT_ENTERED e v op s = Inr s'"
    by auto
  from run_records [OF run] assms(2,3) ok show ?thesis
    by (auto split: if_splits)
qed

lemma exec_keeps:
  assumes "usedInvoices s i"
  shows "usedInvoices (snd (exec e v op s)) i
    \<and> (financingRecords (snd (exec e v op s)) i = financingRecords s i
       \<or> \<not> repaid (financingRecords s i)
         \<and> financingRecords (snd (exec e v op s)) i = (financingRecords s i)\<lparr>repaid := True\<rparr>)"
proof -
  from exec_cases [of e v op s] show ?thesis
  proof
    assume "\<exists>err. exec e v op s = (Reverted err, s)"
    with assms show ?thesis by auto
  next
    assume "\<exists>s'. exec e v op s = (Success, s') \<and> run NOT_ENTERED e v op s = Inr s'"
    then obtain s' where ex: "exec e v op s = (Success, s')"
      and run: "run NOT_ENTERED e v op s = Inr s'"
      by blast
    from run_records [OF run] assms show ?thesis
      unfolding ex by (auto split: if_splits)
  qed
qed

lemma trace_keeps:
  assumes "trace s t" and "usedInvoices s i"
  shows "usedInvoices t i
    \<and> (financingRecords t i = financingRecords s i
       \<or> \<not> repaid (financingRecords s i)
         \<and> financingRecords t i = (financingRecords s i)\<lparr>repaid := True\<rparr>)"
  using assms
proof (induction rule: trace.induct)
  case (here s)
  then show ?case by simp
next
  case (later s t e v op)
  then have used: "usedInvoices t i"
    and was: "financingRecords t i = financingRecords s i
       \<or> \<not> repaid (financingRecords s i)
         \<and> financingRecords t i = (financingRecords s i)\<lparr>repaid := True\<rparr>"
    by simp_all
  from exec_keeps [OF used, of e v op] was show ?case
    by auto
qed

subsection \<open>C7: one record per invoice, fixed but for the repaid flag\<close>

text \<open>
  C7. A financing record comes into being only by a successful \<open>withdrawFinancing\<close> on an
  invoice that is not in the used-invoice set, which puts the invoice into the set.  Once
  the invoice is in the set, no sequence of calls takes it out again, overwrites the
  record or deletes it: the only change any call makes to the record is \<open>repay\<close> setting
  \<open>repaid\<close> from false to true, and a record that is repaid stays as it is.  So at most one
  record is ever created for an invoice.  This holds whatever the recipients of the
  transfers call meanwhile.
\<close>

theorem financing_record_lifecycle:
  "(exec e v op s = (out, s') \<and> \<not> usedInvoices s i
      \<and> (usedInvoices s' i \<or> financingRecords s' i \<noteq> financingRecords s i)
    \<longrightarrow> out = Success \<and> usedInvoices s' i
        \<and> (\<exists>p r d n dl sg. op = WithdrawFinancing i p r d n dl sg
              \<and> financingRecords s' i =
                   \<lparr>invoiceId = i, supplier = msg_sender e, payoutAmount = p,
                    repaymentAmount = r, dueDate = d, timestamp = block_timestamp e,
                    repaid = False\<rparr>))
   \<and> (exec e v op s = (out, s') \<and> usedInvoices s i
      \<and> financingRecords s' i \<noteq> financingRecords s i
    \<longrightarrow> out = Success \<and> op = Repay i \<and> \<not> repaid (financingRecords s i)
        \<and> financingRecords s' i = (financingRecords s i)\<lparr>repaid := True\<rparr>)
   \<and> (trace s t \<and> usedInvoices s i
    \<longrightarrow> usedInvoices t i
        \<and> (financingRecords t i = financingRecords s i
           \<or> \<not> repaid (financingRecords s i)
             \<and> financingRecords t i = (financingRecords s i)\<lparr>repaid := True\<rparr>))"
  using exec_created [of e v op s out s' i] exec_changed [of e v op s out s' i]
    trace_keeps [of s t i]
  by blast

theorem financing_record_lifecycle_witness:
  "exec (world 3 1000) 0 finance7 genesis = (Success, financed)
   \<and> \<not> usedInvoices genesis 7 \<and> usedInvoices financed 7
   \<and> financingRecords financed 7 = invoice7
   \<and> trace financed settled
   \<and> usedInvoices settled 7
   \<and> financingRecords settled 7 = (financingRecords financed 7)\<lparr>repaid := True\<rparr>
   \<and> exec (world 3 9000) 0 finance7 settled = (Reverted InvoiceAlreadyFinanced, settled)"
proof -
  have tr: "trace financed settled"
    using trace.later [OF trace.here [of financed], of "world 4 5000" 100000 "Repay 7"]
    by (simp add: exec_def transact_def run_simps repay_on_time)
  have u: "usedInvoices financed 7" by (simp add: financed_simps)
  have n: "\<not> usedInvoices genesis 7" by (simp add: genesis_simps)
  from financing_record_lifecycle [where s = financed and t = settled and i = 7,
      THEN conjunct2, THEN conjunct2] tr u
  have kept: "usedInvoices settled 7" by simp
  from financing_record_lifecycle [where e = "world 3 1000" and v = 0 and op = finance7
      and s = genesis and s' = financed and out = Success and i = 7, THEN conjunct1]
    exec_finance7 n u
  have made: "\<exists>p r d n dl sg. finance7 = WithdrawFinancing 7 p r d n dl sg
      \<and> financingRecords financed 7 =
           \<lparr>invoiceId = 7, supplier = msg_sender (world 3 1000), payoutAmount = p,
            repaymentAmount = r, dueDate = d, timestamp = block_timestamp (world 3 1000),
            repaid = False\<rparr>"
    by simp
  have rec: "financingRecords financed 7 = invoice7" by (simp add: financed_simps)
  have rec': "financingRecords settled 7 = (financingRecords financed 7)\<lparr>repaid := True\<rparr>"
    by (simp add: settled_def financed_simps)
  have again: "exec (world 3 9000) 0 finance7 settled
      = (Reverted InvoiceAlreadyFinanced, settled)"
    using kept
    by (simp add: exec_def run_simps finance7_def transact_def withdrawFinancing_def
        nonReentrant_def)
  from exec_finance7 n u rec tr kept rec' again show ?thesis by simp
qed

subsection \<open>C8: deposit, then withdraw the same amount\<close>

lemma processDeposit_ok:
  "0 < x \<Longrightarrow> lpDeposits s a + x \<le> MAX_UINT256 \<Longrightarrow> totalPoolSize s + x \<le> MAX_UINT256 \<Longrightarrow>
   availableLiquidity s + x \<le> MAX_UINT256 \<Longrightarrow>
   processDeposit a x s = Inr (s\<lparr>lpDeposits := (lpDeposits s)(a := lpDeposits s a + x),
                                  totalPoolSize := totalPoolSize s + x,
                                  availableLiquidity := availableLiquidity s + x\<rparr>)"
  by (simp add: processDeposit_def)

lemma processDeposit_cases:
  "case processDeposit a x s of
     Inl err \<Rightarrow> x = 0 \<and> err = AmountZero
        \<or> 0 < x \<and> err = Panic
          \<and> (MAX_UINT256 < lpDeposits s a + x \<or> MAX_UINT256 < totalPoolSize s + x
               \<or> MAX_UINT256 < availableLiquidity s + x)
   | Inr s' \<Rightarrow> 0 < x
        \<and> lpDeposits s a + x \<le> MAX_UINT256 \<and> totalPoolSize s + x \<le> MAX_UINT256
        \<and> availableLiquidity s + x \<le> MAX_UINT256
        \<and> s' = s\<lparr>lpDeposits := (lpDeposits s)(a := lpDeposits s a + x),
                   totalPoolSize := totalPoolSize s + x,
                   availableLiquidity := availableLiquidity s + x\<rparr>"
  by (simp add: processDeposit_def)

lemma withdrawWrites_deposit:
  "withdrawWrites e x (s\<lparr>lpDeposits := (lpDeposits s)(msg_sender e := lpDeposits s (msg_sender e) + x),
                         totalPoolSize := totalPoolSize s + x,
                         availableLiquidity := availableLiquidity s + x\<rparr>) = s"
  by (simp add: withdrawWrites_def)

lemma withdraw_after_deposit:
  assumes "0 < x"
  shows "withdraw NOT_ENTERED e x
           (s\<lparr>lpDeposits := (lpDeposits s)(msg_sender e := lpDeposits s (msg_sender e) + x),
              totalPoolSize := totalPoolSize s + x,
              availableLiquidity := availableLiquidity s + x\<rparr>)
         = (if fst (send e 0 (msg_sender e) x s) then Inr (snd (send e 0 (msg_sender e) x s))
            else Inl TransferFailed)"
  using assms by (simp add: withdraw_def nonReentrant_def Let_def withdrawWrites_deposit)

lemma send_accepted:
  "to \<noteq> address_this e \<Longrightarrow> fst (callee e k to v) \<Longrightarrow>
   send e k to v s = (True, callbacks e (snd (callee e k to v)) s)"
  by (simp add: send_def)

lemma deposited_simps:
  "totalPoolSize deposited = 1000500" "availableLiquidity deposited = 902500"
  "lpDeposits deposited = (\<lambda>a. if a = 1 then 1000000 else 0)(9 := 500)"
  by (simp_all add: deposited_def financed_simps)

lemma payBack_simps:
  "msg_sender payBack = 9" "address_this payBack = 100"
  "callee payBack = (\<lambda>_ _ _. (True, [(9, 200, Receive)]))"
  by (simp_all add: payBack_def world_simps)

lemma exec_deposit_500:
  "exec (world 9 1000) 500 Deposit financed = (Success, deposited)"
  by (simp add: exec_def run_simps transact_def deposit_def nonReentrant_def processDeposit_def
      world_simps financed_simps MAX_UINT256_def deposited_def)

lemma withdrawWrites_deposited: "withdrawWrites payBack 500 deposited = financed"
  by (simp add: withdrawWrites_def payBack_simps deposited_def financed_simps fun_eq_iff
      financed_def genesis_def)

lemma reenter_payBack:
  "reenter (payBack\<lparr>msg_sender := 9\<rparr>) 200 Receive financed = Inr paidBack"
  apply (simp add: reenter_def payable_def)
  apply (simp add: receive_def processDeposit_def financed_simps MAX_UINT256_def)
  apply (simp add: paidBack_def financed_simps)
  done

lemma callbacks_payBack: "callbacks payBack [(9, 200, Receive)] financed = paidBack"
  by (simp add: transact_def reenter_payBack)

lemma withdraw_payBack: "withdraw NOT_ENTERED payBack 500 deposited = Inr paidBack"
  by (simp add: withdraw_def nonReentrant_def Let_def deposited_simps payBack_simps
      withdrawWrites_deposited send_def callbacks_payBack del: callbacks.simps)

text \<open>
  C8, as amended.  For every starting state, every account other than the pool itself and
  every amount \<open>X > 0\<close>: when \<open>deposit\<close> of \<open>X\<close> by the account has been performed and the
  account then calls \<open>withdraw\<close> of \<open>X\<close> without sending value, the outgoing transfer being
  accepted, the withdrawal succeeds and leaves the starting storage followed by the calls
  the account makes into the pool while it receives the transfer.  When it makes none,
  \<open>totalPoolSize\<close>, \<open>availableLiquidity\<close> and the account's \<open>lpDeposits\<close> entry are what they
  were before the deposit (the whole storage is); whatever it calls, the pool is no
  smaller than at the start.  A \<open>withdraw\<close> that carries value reverts, the function not
  being payable.  The deposit itself is performed whenever \<open>X > 0\<close> and the three sums fit
  \<open>uint256\<close>.
\<close>

theorem deposit_withdraw_roundtrip:
  "(0 < x \<and> lpDeposits s (msg_sender e) + x \<le> MAX_UINT256
      \<and> totalPoolSize s + x \<le> MAX_UINT256 \<and> availableLiquidity s + x \<le> MAX_UINT256
    \<longrightarrow> fst (exec e x Deposit s) = Success)
   \<and> (exec e x Deposit s = (Success, s1) \<and> msg_sender e' = msg_sender e
        \<and> msg_sender e \<noteq> address_this e' \<and> callee e' 0 (msg_sender e) x = (True, [])
    \<longrightarrow> 0 < x
        \<and> exec e' 0 (Withdraw x) s1 = (Success, s)
        \<and> totalPoolSize (snd (exec e' 0 (Withdraw x) s1)) = totalPoolSize s
        \<and> availableLiquidity (snd (exec e' 0 (Withdraw x) s1)) = availableLiquidity s
        \<and> lpDeposits (snd (exec e' 0 (Withdraw x) s1)) (msg_sender e)
            = lpDeposits s (msg_sender e))
   \<and> (exec e x Deposit s = (Success, s1) \<and> msg_sender e' = msg_sender e
        \<and> msg_sender e \<noteq> address_this e' \<and> fst (callee e' 0 (msg_sender e) x)
    \<longrightarrow> exec e' 0 (Withdraw x) s1
          = (Success, callbacks e' (snd (callee e' 0 (msg_sender e) x)) s)
        \<and> totalPoolSize s \<le> totalPoolSize (snd (exec e' 0 (Withdraw x) s1))
        \<and> totalPoolSize (snd (exec e' 0 (Withdraw x) s1)) + availableLiquidity s
            = totalPoolSize s + availableLiquidity (snd (exec e' 0 (Withdraw x) s1)))
   \<and> (v \<noteq> 0 \<longrightarrow> exec e' v (Withdraw x) s1 = (Reverted CallValueNotZero, s1))"
proof -
  have dep: "fst (exec e x Deposit s) = Success"
    if "0 < x" "lpDeposits s (msg_sender e) + x \<le> MAX_UINT256"
      "totalPoolSize s + x \<le> MAX_UINT256" "availableLiquidity s + x \<le> MAX_UINT256"
    by (simp add: exec_def run_simps transact_def deposit_def nonReentrant_def
        processDeposit_ok [OF that])
  have general: "0 < x \<and> exec e' 0 (Withdraw x) s1
          = (Success, callbacks e' (snd (callee e' 0 (msg_sender e) x)) s)"
    if d: "exec e x Deposit s = (Success, s1)" and who: "msg_sender e' = msg_sender e"
      and other: "msg_sender e \<noteq> address_this e'"
      and paid: "fst (callee e' 0 (msg_sender e) x)"
  proof -
    from d have run: "processDeposit (msg_sender e) x s = Inr s1"
      by (simp add: exec_def run_simps transact_def deposit_def nonReentrant_def
          split: sum.splits)
    from processDeposit_cases [where a = "msg_sender e" and x = x and s = s]
    have pos: "0 < x"
      and s1: "s1 = s\<lparr>lpDeposits :=
                  (lpDeposits s)(msg_sender e := lpDeposits s (msg_sender e) + x),
                totalPoolSize := totalPoolSize s + x,
                availableLiquidity := availableLiquidity s + x\<rparr>"
      by (simp_all add: run)
    have sent: "send e' 0 (msg_sender e') x s
        = (True, callbacks e' (snd (callee e' 0 (msg_sender e) x)) s)"
      using send_accepted [where e = e' and k = 0 and to = "msg_sender e" and v = x and s = s]
        other paid
      by (simp add: who)
    have "withdraw NOT_ENTERED e' x s1
        = Inr (callbacks e' (snd (callee e' 0 (msg_sender e) x)) s)"
      unfolding s1
      using withdraw_after_deposit [OF pos, where e = e' and s = s] sent
      by (simp add: who)
    then show ?thesis
      using pos by (simp add: exec_def run_simps transact_def)
  qed
  have un: "untouched s (callbacks e' cs s)" for cs
    by (rule callbacks_untouched)
  have loud: "exec e' 0 (Withdraw x) s1
          = (Success, callbacks e' (snd (callee e' 0 (msg_sender e) x)) s)
        \<and> totalPoolSize s \<le> totalPoolSize (snd (exec e' 0 (Withdraw x) s1))
        \<and> totalPoolSize (snd (exec e' 0 (Withdraw x) s1)) + availableLiquidity s
            = totalPoolSize s + availableLiquidity (snd (exec e' 0 (Withdraw x) s1))"
    if "exec e x Deposit s = (Success, s1)" "msg_sender e' = msg_sender e"
      "msg_sender e \<noteq> address_this e'" "fst (callee e' 0 (msg_sender e) x)"
    using general [OF that] un [of "snd (callee e' 0 (msg_sender e) x)"]
    by (simp add: untouched_def)
  have quiet: "0 < x \<and> exec e' 0 (Withdraw x) s1 = (Success, s)"
    if "exec e x Deposit s = (Success, s1)" "msg_sender e' = msg_sender e"
      "msg_sender e \<noteq> address_this e'" "callee e' 0 (msg_sender e) x = (True, [])"
    using general [OF that(1-3)] that(4) by simp
  have valued: "exec e' v (Withdraw x) s1 = (Reverted CallValueNotZero, s1)" if "v \<noteq> 0"
    using that by (simp add: exec_def transact_def run_def payable_def)
  from dep quiet loud valued show ?thesis by auto
qed

theorem deposit_withdraw_roundtrip_witness:
  "exec (world 9 1000) 500 Deposit financed = (Success, deposited)
   \<and> exec (world 9 1001) 0 (Withdraw 500) deposited = (Success, financed)
   \<and> exec payBack 0 (Withdraw 500) deposited
       = (Success, callbacks payBack [(9, 200, Receive)] financed)
   \<and> exec (world 9 1001) 500 (Withdraw 500) deposited = (Reverted CallValueNotZero, deposited)"
proof -
  note d = exec_deposit_500
  from deposit_withdraw_roundtrip [where e = "world 9 1000" and e' = "world 9 1001"
      and x = 500 and s = financed and ?s1.0 = deposited,
      THEN conjunct2, THEN conjunct1, rule_format]
  have restored: "exec (world 9 1001) 0 (Withdraw 500) deposited = (Success, financed)"
    by (simp add: d world_simps)
  from deposit_withdraw_roundtrip [where e = "world 9 1000" and e' = payBack
      and x = 500 and s = financed and ?s1.0 = deposited,
      THEN conjunct2, THEN conjunct2, THEN conjunct1, rule_format]
  have loud: "exec payBack 0 (Withdraw 500) deposited
       = (Success, callbacks payBack [(9, 200, Receive)] financed)"
    by (simp add: d world_simps payBack_simps del: callbacks.simps)
  from deposit_withdraw_roundtrip [where e' = "world 9 1001" and v = 500
      and x = 500 and ?s1.0 = deposited,
      THEN conjunct2, THEN conjunct2, THEN conjunct2, rule_format]
  have valued: "exec (world 9 1001) 500 (Withdraw 500) deposited
      = (Reverted CallValueNotZero, deposited)"
    by simp
  from d restored loud valued show ?thesis by blast
qed

text \<open>
  The claim as stated fails when the account pays into the pool while it receives the
  withdrawn amount.  Account 9 deposits 500 into the financed pool (reachable, with an LP
  position of 0 for the account) and withdraws 500; it is a contract whose code, on
  receiving the 500, sends 200 to the pool in a plain transfer.  The transfer of the
  withdrawal succeeds, and so does the call; after it \<open>totalPoolSize\<close> and
  \<open>availableLiquidity\<close> are 200 above their starting values and the account's position is
  200.  And the withdrawal that carries value is rejected before any transfer.
\<close>

theorem deposit_withdraw_roundtrip_counterexample:
  "reachable financed
   \<and> exec (world 9 1000) 500 Deposit financed = (Success, deposited)
   \<and> msg_sender payBack = msg_sender (world 9 1000)
   \<and> fst (send payBack 0 (msg_sender payBack) 500 (withdrawWrites payBack 500 deposited))
   \<and> exec payBack 0 (Withdraw 500) deposited = (Success, paidBack)
   \<and> totalPoolSize paidBack = totalPoolSize financed + 200
   \<and> availableLiquidity paidBack = availableLiquidity financed + 200
   \<and> lpDeposits financed 9 = 0 \<and> lpDeposits paidBack 9 = 200
   \<and> exec (world 9 1001) 500 (Withdraw 500) deposited = (Reverted CallValueNotZero, deposited)"
proof -
  have w: "exec payBack 0 (Withdraw 500) deposited = (Success, paidBack)"
    by (simp add: exec_def transact_def run_simps withdraw_payBack)
  have sent: "fst (send payBack 0 (msg_sender payBack) 500 (withdrawWrites payBack 500 deposited))"
    by (simp add: send_def payBack_simps)
  have valued: "exec (world 9 1001) 500 (Withdraw 500) deposited
      = (Reverted CallValueNotZero, deposited)"
    by (simp add: exec_def transact_def run_def payable_def)
  from reachable_financed exec_deposit_500 w sent valued show ?thesis
    by (simp add: payBack_simps world_simps paidBack_def financed_simps)
qed

subsection \<open>C9: rotating the Aegis wallet\<close>

lemma updateAegisWallet_outcome:
  "transact (updateAegisWallet e w) s =
     (if \<not> hasRole s ADMIN_ROLE (msg_sender e)
      then (Reverted (AccessControlUnauthorizedAccount (msg_sender e) ADMIN_ROLE), s)
      else if w = 0 then (Reverted InvalidWalletAddress, s)
      else if \<not> hasRole s DEFAULT_ADMIN_ROLE (msg_sender e)
      then (Reverted (AccessControlUnauthorizedAccount (msg_sender e) DEFAULT_ADMIN_ROLE), s)
      else (Success, grantRole_internal AEGIS_ROLE w
              (revokeRole_internal AEGIS_ROLE (aegisServerWallet s)
                 (s\<lparr>aegisServerWallet := w\<rparr>))))"
  by (simp add: transact_def updateAegisWallet_def onlyRole_def revokeRole_def grantRole_def
      getRoleAdmin_def Let_def revokeRole_internal_def grantRole_internal_def)

lemma run_updateAegisWallet:
  "run g e 0 (UpdateAegisWallet w) = updateAegisWallet e w"
  by (rule ext) (simp add: run_simps)

lemma exec_delegate:
  "exec (world 1 1500) 0 (GrantRole ADMIN_ROLE 5) genesis = (Success, delegated)"
  by (simp add: exec_def run_simps transact_def grantRole_def onlyRole_def getRoleAdmin_def
      grantRole_internal_def world_simps genesis_simps adminOnly_def delegated_def)

lemma reachable_delegated: "reachable delegated"
  using reachable.step [OF reachable.init [OF constructor_genesis],
      of "world 1 1500" 0 "GrantRole ADMIN_ROLE 5"]
  by (simp add: exec_delegate)

lemma delegated_roles:
  "hasRole delegated ADMIN_ROLE 5" "\<not> hasRole delegated DEFAULT_ADMIN_ROLE 5"
  by (simp_all add: delegated_def adminOnly_def)

text \<open>
  C9. The claim is that \<open>updateAegisWallet\<close> succeeds for every caller holding \<open>ADMIN_ROLE\<close>
  when the new wallet is not the zero address.  The function calls the public \<open>revokeRole\<close>
  and \<open>grantRole\<close>, which demand the admin role of \<open>AEGIS_ROLE\<close>, that is
  \<open>DEFAULT_ADMIN_ROLE\<close>, of the caller.  In the reachable state \<open>delegated\<close> account 5 holds
  \<open>ADMIN_ROLE\<close> and its call with the non-zero wallet 6 reverts with
  \<open>AccessControlUnauthorizedAccount(5, DEFAULT_ADMIN_ROLE)\<close>, while the same caller may set
  the fee rate and the deployer, holding both roles, may rotate the wallet.
\<close>

theorem updateAegisWallet_needs_default_admin:
  "reachable delegated
   \<and> hasRole delegated ADMIN_ROLE 5
   \<and> (6 :: address) \<noteq> 0
   \<and> exec (world 5 2000) 0 (UpdateAegisWallet 6) delegated
       = (Reverted (AccessControlUnauthorizedAccount 5 DEFAULT_ADMIN_ROLE), delegated)
   \<and> fst (exec (world 5 2000) 0 (UpdateProtocolFeeRate 500) delegated) = Success
   \<and> fst (exec (world 1 2000) 0 (UpdateAegisWallet 6) delegated) = Success"
proof -
  have rot: "exec (world 5 2000) 0 (UpdateAegisWallet 6) delegated
       = (Reverted (AccessControlUnauthorizedAccount 5 DEFAULT_ADMIN_ROLE), delegated)"
    by (simp add: exec_def run_updateAegisWallet updateAegisWallet_outcome world_simps
        delegated_roles)
  have rate: "fst (exec (world 5 2000) 0 (UpdateProtocolFeeRate 500) delegated) = Success"
    by (simp add: exec_def run_simps transact_def updateProtocolFeeRate_def onlyRole_def
        world_simps delegated_roles)
  have owner: "fst (exec (world 1 2000) 0 (UpdateAegisWallet 6) delegated) = Success"
    by (simp add: exec_def run_updateAegisWallet updateAegisWallet_outcome world_simps
        delegated_def adminOnly_def)
  from reachable_delegated delegated_roles(1) rot rate owner show ?thesis by simp
qed

subsection \<open>C10: a plain transfer and deposit\<close>

text \<open>
  C10, as amended.  The \<open>receive\<close> entry point (a value transfer that names no function)
  does, for every sender and amount, what \<open>deposit\<close> does when called as a transaction of
  its own: it rejects the amount 0 and otherwise adds the amount to the sender's
  \<open>lpDeposits\<close> entry, to \<open>totalPoolSize\<close> and to \<open>availableLiquidity\<close>.  The two differ in a
  call made while a guarded function of the pool is running: \<open>deposit\<close> is \<open>nonReentrant\<close>
  and reverts there, \<open>receive\<close> carries no guard and does the same as ever.
\<close>

theorem receive_is_deposit:
  "exec e v Receive s = exec e v Deposit s
   \<and> deposit g e v s = nonReentrant g (receive e v s)
   \<and> run NOT_ENTERED e v Receive s = run NOT_ENTERED e v Deposit s
   \<and> run ENTERED e v Receive s = receive e v s
   \<and> run ENTERED e v Deposit s = Inl ReentrancyGuardReentrantCall
   \<and> (v = 0 \<longrightarrow> exec e v Receive s = (Reverted AmountZero, s))
   \<and> (0 < v \<and> lpDeposits s (msg_sender e) + v \<le> MAX_UINT256
        \<and> totalPoolSize s + v \<le> MAX_UINT256
        \<and> availableLiquidity s + v \<le> MAX_UINT256
      \<longrightarrow> exec e v Receive s
          = (Success, s\<lparr>lpDeposits := (lpDeposits s)(msg_sender e :=
                              lpDeposits s (msg_sender e) + v),
                          totalPoolSize := totalPoolSize s + v,
                          availableLiquidity := availableLiquidity s + v\<rparr>))
   \<and> (fst (exec e v Receive s) = Success
      \<longrightarrow> 0 < v
        \<and> lpDeposits (snd (exec e v Receive s)) (msg_sender e)
            = lpDeposits s (msg_sender e) + v
        \<and> totalPoolSize (snd (exec e v Receive s)) = totalPoolSize s + v
        \<and> availableLiquidity (snd (exec e v Receive s)) = availableLiquidity s + v)"
  by (simp add: exec_def run_simps transact_def receive_def deposit_def nonReentrant_def
      processDeposit_def)

theorem receive_is_deposit_witness:
  "exec (world 9 1000) 500 Receive financed = exec (world 9 1000) 500 Deposit financed
   \<and> exec (world 9 1000) 500 Receive financed
     = (Success, financed\<lparr>lpDeposits := (lpDeposits financed)(9 := 500),
                           totalPoolSize := 1000500, availableLiquidity := 902500\<rparr>)
   \<and> exec (world 9 1000) 0 Receive financed = (Reverted AmountZero, financed)"
proof -
  note paid = receive_is_deposit [where e = "world 9 1000" and v = 500 and s = financed]
  note empty = receive_is_deposit [where e = "world 9 1000" and v = 0 and s = financed]
  have same: "exec (world 9 1000) 500 Receive financed = exec (world 9 1000) 500 Deposit financed"
    by (rule paid [THEN conjunct1])
  have credited: "exec (world 9 1000) 500 Receive financed
     = (Success, financed\<lparr>lpDeposits := (lpDeposits financed)(9 := 500),
                           totalPoolSize := 1000500, availableLiquidity := 902500\<rparr>)"
    using paid [THEN conjunct2, THEN conjunct2, THEN conjunct2, THEN conjunct2, THEN conjunct2,
        THEN conjunct2, THEN conjunct1]
    by (simp add: world_simps financed_simps MAX_UINT256_def)
  have zero: "exec (world 9 1000) 0 Receive financed = (Reverted AmountZero, financed)"
    using empty [THEN conjunct2, THEN conjunct2, THEN conjunct2, THEN conjunct2, THEN conjunct2,
        THEN conjunct1]
    by (simp add: world_simps)
  from same credited zero show ?thesis by blast
qed

text \<open>
  The claim as stated, that the transfer is equal to \<open>deposit\<close> for every sender and
  amount, fails for the calls that arrive while a guarded function is running.  Account 9
  withdraws its 500 and, while it receives them, sends 200 to the pool: as a plain
  transfer the 200 are credited to its LP position, as a call of \<open>deposit\<close> they are
  rejected with \<open>ReentrancyGuardReentrantCall\<close> and the position stays empty.
\<close>

theorem receive_is_deposit_counterexample:
  "reenter (payBack\<lparr>msg_sender := 9\<rparr>) 200 Receive financed = Inr paidBack
   \<and> reenter (payBack\<lparr>msg_sender := 9\<rparr>) 200 Deposit financed
       = Inl ReentrancyGuardReentrantCall
   \<and> run ENTERED (payBack\<lparr>msg_sender := 9\<rparr>) 200 Receive financed = Inr paidBack
   \<and> run ENTERED (payBack\<lparr>msg_sender := 9\<rparr>) 200 Deposit financed
       = Inl ReentrancyGuardReentrantCall
   \<and> exec payBack 0 (Withdraw 500) deposited = (Success, paidBack)
   \<and> exec (payBack\<lparr>callee := (\<lambda>_ _ _. (True, [(9, 200, Deposit)]))\<rparr>) 0 (Withdraw 500)
        deposited = (Success, financed)
   \<and> lpDeposits paidBack 9 = 200 \<and> lpDeposits financed 9 = 0"
proof -
  let ?dep = "payBack\<lparr>callee := (\<lambda>_ _ _. (True, [(9, 200, Deposit)]))\<rparr>"
  have d: "reenter (payBack\<lparr>msg_sender := 9\<rparr>) 200 Deposit financed
       = Inl ReentrancyGuardReentrantCall"
    by (simp add: reenter_def payable_def)
  have d': "reenter (?dep\<lparr>msg_sender := 9\<rparr>) 200 Deposit financed
       = Inl ReentrancyGuardReentrantCall"
    by (simp add: reenter_def payable_def)
  have w: "exec payBack 0 (Withdraw 500) deposited = (Success, paidBack)"
    by (simp add: exec_def transact_def run_simps withdraw_payBack)
  have ww: "withdrawWrites ?dep 500 deposited = financed"
    using withdrawWrites_deposited by (simp add: withdrawWrites_def)
  have cb: "callbacks ?dep [(9, 200, Deposit)] financed = financed"
    by (simp add: transact_def d')
  have wd: "withdraw NOT_ENTERED ?dep 500 deposited = Inr financed"
    by (simp add: withdraw_def nonReentrant_def Let_def deposited_simps payBack_simps
        ww send_def cb del: callbacks.simps)
  have w': "exec ?dep 0 (Withdraw 500) deposited = (Success, financed)"
    by (simp add: exec_def transact_def run_simps wd)
  from reenter_payBack d w w' show ?thesis
    by (simp add: run_entered paidBack_def financed_simps)
qed

end
